theory Spec2Isabelle
  imports Main "HOL-Library.AList"
begin

section \<open>Strings of the text utilities\<close>

text \<open>
  A JavaScript string is a sequence of UTF-16 code units, and \<open>.length\<close> counts them.
  The text utilities draw with glyphs outside ASCII, so their strings are lists of code
  units (numbers below \<open>2 ^ 16\<close>, written as integers); \<open>ascii\<close> embeds an ASCII literal.
\<close>

type_synonym ustring = "int list"

definition ascii :: "string \<Rightarrow> ustring" where
  "ascii s = map of_char s"

definition nl :: ustring where
  "nl = [10]"

definition sp :: ustring where
  "sp = [32]"

text \<open>A template literal prints a missing (\<open>undefined\<close>) value as the word itself.\<close>

definition tmpl :: "ustring option \<Rightarrow> ustring" where
  "tmpl v = (case v of None \<Rightarrow> ascii ''undefined'' | Some s \<Rightarrow> s)"

text \<open>\<open>Array.prototype.join\<close> on an array of strings.\<close>

fun join :: "ustring \<Rightarrow> ustring list \<Rightarrow> ustring" where
  "join sep [] = []"
| "join sep [x] = x"
| "join sep (x # y # ys) = x @ sep @ join sep (y # ys)"

section \<open>Tree drawing (src/utils/tree.ts)\<close>

text \<open>
  \<open>TreeItem = string | TreeItemObject\<close>. A colour is a colour name; the colour
  functions of color.ts depend on the terminal, so \<open>colorize\<close> is a parameter of the
  model and every result below holds for each colour implementation.
\<close>

datatype TreeItem =
    TreeString ustring
  | TreeItemObject (item_text: ustring) (children: "TreeItem list option") (color: "string option")

record TreeOptions =
  opt_color :: "string option"
  opt_prefix :: "ustring option"
  maxDepth :: "int option"
  ellipsis :: "ustring option"

type_synonym colorizer = "string \<Rightarrow> ustring \<Rightarrow> ustring"

text \<open>\<open>item.color ? ... : ...\<close> tests truthiness: a missing or empty name is falsy.\<close>

definition truthy_name :: "string option \<Rightarrow> bool" where
  "truthy_name c = (case c of None \<Rightarrow> False | Some n \<Rightarrow> n \<noteq> [])"

definition isLimit :: "TreeOptions \<Rightarrow> bool" where
  "isLimit options = (case maxDepth options of None \<Rightarrow> False | Some d \<Rightarrow> d \<le> 0)"

definition ellipsis_line :: "TreeOptions \<Rightarrow> ustring" where
  "ellipsis_line options = tmpl (opt_prefix options) @ tmpl (ellipsis options) @ nl"

definition limit_chunk :: "colorizer \<Rightarrow> TreeItem \<Rightarrow> TreeOptions \<Rightarrow> ustring" where
  "limit_chunk colorize item options =
     (case item of
        TreeString _ \<Rightarrow> ellipsis_line options
      | TreeItemObject _ _ c \<Rightarrow>
          (if truthy_name c then colorize (the c) (ellipsis_line options)
           else ellipsis_line options))"

definition child_options :: "TreeOptions \<Rightarrow> bool \<Rightarrow> TreeOptions" where
  "child_options options isLast =
     options\<lparr> maxDepth := (case maxDepth options of None \<Rightarrow> None | Some d \<Rightarrow> Some (d - 1)),
              opt_prefix := Some (tmpl (opt_prefix options)
                                   @ (if isLast then [32, 32] else [0x2502, 32, 32])) \<rparr>"

text \<open>
  \<open>_buildTree\<close>: the \<open>for\<close> loop over \<open>items\<close>, with the chunks collected so far.
  The list argument holds the items from index \<open>i\<close> on, so \<open>i === total\<close> is
  "no item follows". The \<open>return\<close> inside the loop leaves the function with a
  one-element array, whatever \<open>chunks\<close> holds.
\<close>

fun buildTree_loop :: "colorizer \<Rightarrow> TreeItem list \<Rightarrow> TreeOptions \<Rightarrow> ustring list \<Rightarrow> ustring list" where
  "buildTree_loop colorize [] options chunks = chunks"
| "buildTree_loop colorize (item # rest) options chunks =
     (if isLimit options then [limit_chunk colorize item options]
      else
        let isLast = (rest = []);
            prefix = tmpl (opt_prefix options) @ (if isLast then [0x2514, 0x2500] else [0x251C, 0x2500])
        in (case item of
              TreeString s \<Rightarrow>
                buildTree_loop colorize rest options (chunks @ [prefix @ s @ nl])
            | TreeItemObject t ch c \<Rightarrow>
                let log = prefix @ t @ nl;
                    chunks1 = chunks @ [if truthy_name c then colorize (the c) log else log]
                in (case ch of
                      None \<Rightarrow> buildTree_loop colorize rest options chunks1
                    | Some items' \<Rightarrow>
                        buildTree_loop colorize rest options
                          (chunks1 @ buildTree_loop colorize items' (child_options options isLast) []))))"

definition buildTree :: "colorizer \<Rightarrow> TreeItem list \<Rightarrow> TreeOptions \<Rightarrow> ustring list" where
  "buildTree colorize items options = buildTree_loop colorize items options []"

definition formatTree :: "colorizer \<Rightarrow> TreeItem list \<Rightarrow> TreeOptions \<Rightarrow> ustring" where
  "formatTree colorize items options0 =
     (let options = options0\<lparr>
            opt_prefix := (case opt_prefix options0 of None \<Rightarrow> Some [32, 32] | Some p \<Rightarrow> Some p),
            ellipsis := (case ellipsis options0 of None \<Rightarrow> Some (ascii ''...'') | Some e \<Rightarrow> Some e) \<rparr>;
          tree = concat (buildTree colorize items options)
      in if truthy_name (opt_color options) then colorize (the (opt_color options)) tree else tree)"

section \<open>Box drawing (src/utils/box.ts)\<close>

text \<open>
  Failures of the run-time system are values: \<open>String.prototype.repeat\<close> raises a
  RangeError on a negative count, a call of a missing method raises a TypeError.
  \<open>Unmodelled\<close> marks the few places where the model does not follow the engine
  (they are listed where they occur); no result below rests on such a place.
\<close>

datatype failure = TypeError | RangeError | Unmodelled

definition bind :: "failure + 'a \<Rightarrow> ('a \<Rightarrow> failure + 'b) \<Rightarrow> failure + 'b" where
  "bind m f = (case m of Inl e \<Rightarrow> Inl e | Inr x \<Rightarrow> f x)"

fun mapE :: "('a \<Rightarrow> failure + 'b) \<Rightarrow> 'a list \<Rightarrow> failure + 'b list" where
  "mapE f [] = Inr []"
| "mapE f (x # xs) = bind (f x) (\<lambda>y. bind (mapE f xs) (\<lambda>ys. Inr (y # ys)))"

definition js_repeat :: "ustring \<Rightarrow> int \<Rightarrow> failure + ustring" where
  "js_repeat s n = (if n < 0 then Inl RangeError else Inr (concat (replicate (nat n) s)))"

text \<open>\<open>text.split("\n")\<close>: never empty.\<close>

fun split_nl :: "ustring \<Rightarrow> ustring list" where
  "split_nl [] = [[]]"
| "split_nl (c # cs) =
     (if c = 10 then [] # split_nl cs
      else (case split_nl cs of [] \<Rightarrow> [[c]] | l # ls \<Rightarrow> (c # l) # ls))"

text \<open>\<open>Math.max(...xs)\<close>; it is only applied to the lengths of the lines of a split.\<close>

fun maximum :: "int list \<Rightarrow> int" where
  "maximum [] = 0"
| "maximum (x # xs) = fold max xs x"

record BoxBorderStyle =
  b_tl :: ustring
  b_tr :: ustring
  b_bl :: ustring
  b_br :: ustring
  b_h :: ustring
  b_v :: ustring

definition mk_border :: "int \<Rightarrow> int \<Rightarrow> int \<Rightarrow> int \<Rightarrow> int \<Rightarrow> int \<Rightarrow> BoxBorderStyle" where
  "mk_border a b c d e f = \<lparr>b_tl = [a], b_tr = [b], b_bl = [c], b_br = [d], b_h = [e], b_v = [f]\<rparr>"

definition boxStylePresets :: "(string \<times> BoxBorderStyle) list" where
  "boxStylePresets =
     [(''solid'', mk_border 0x250C 0x2510 0x2514 0x2518 0x2500 0x2502),
      (''double'', mk_border 0x2554 0x2557 0x255A 0x255D 0x2550 0x2551),
      (''doubleSingle'', mk_border 0x2553 0x2556 0x2559 0x255C 0x2500 0x2551),
      (''doubleSingleRounded'', mk_border 0x256D 0x256E 0x2570 0x256F 0x2500 0x2551),
      (''singleThick'', mk_border 0x250F 0x2513 0x2517 0x251B 0x2501 0x2503),
      (''singleDouble'', mk_border 0x2552 0x2555 0x2558 0x255B 0x2550 0x2502),
      (''singleDoubleRounded'', mk_border 0x256D 0x256E 0x2570 0x256F 0x2550 0x2502),
      (''rounded'', mk_border 0x256D 0x256E 0x2570 0x256F 0x2500 0x2502)]"

datatype BorderSpec = Preset string | Literal BoxBorderStyle

record BoxStyle =
  borderColor :: string
  borderStyle :: BorderSpec
  valign :: string
  padding :: int
  marginLeft :: int
  marginTop :: int
  marginBottom :: int

text \<open>\<open>Partial<BoxStyle>\<close>: the fields a caller gives override the defaults.\<close>

record PartialBoxStyle =
  borderColor_opt :: "string option"
  borderStyle_opt :: "BorderSpec option"
  valign_opt :: "string option"
  padding_opt :: "int option"
  marginLeft_opt :: "int option"
  marginTop_opt :: "int option"
  marginBottom_opt :: "int option"

record BoxOpts =
  title :: "ustring option"
  style :: PartialBoxStyle

definition defaultStyle :: BoxStyle where
  "defaultStyle = \<lparr>borderColor = ''white'', borderStyle = Preset ''rounded'', valign = ''center'',
                    padding = 2, marginLeft = 1, marginTop = 1, marginBottom = 1\<rparr>"

definition or_default :: "'a option \<Rightarrow> 'a \<Rightarrow> 'a" where
  "or_default v d = (case v of None \<Rightarrow> d | Some x \<Rightarrow> x)"

definition merged_style :: "PartialBoxStyle \<Rightarrow> BoxStyle" where
  "merged_style p =
     \<lparr>borderColor = or_default (borderColor_opt p) (borderColor defaultStyle),
      borderStyle = or_default (borderStyle_opt p) (borderStyle defaultStyle),
      valign = or_default (valign_opt p) (valign defaultStyle),
      padding = or_default (padding_opt p) (padding defaultStyle),
      marginLeft = or_default (marginLeft_opt p) (marginLeft defaultStyle),
      marginTop = or_default (marginTop_opt p) (marginTop defaultStyle),
      marginBottom = or_default (marginBottom_opt p) (marginBottom defaultStyle)\<rparr>"

definition resolve_border :: "BorderSpec \<Rightarrow> BoxBorderStyle" where
  "resolve_border b =
     (case b of
        Preset n \<Rightarrow> (case map_of boxStylePresets n of
                       Some st \<Rightarrow> st
                     | None \<Rightarrow> mk_border 0x250C 0x2510 0x2514 0x2518 0x2500 0x2502)
      | Literal st \<Rightarrow> st)"

definition color_border :: "(ustring \<Rightarrow> ustring) \<Rightarrow> BoxBorderStyle \<Rightarrow> BoxBorderStyle" where
  "color_border c st = \<lparr>b_tl = c (b_tl st), b_tr = c (b_tr st), b_bl = c (b_bl st),
                         b_br = c (b_br st), b_h = c (b_h st), b_v = c (b_v st)\<rparr>"

definition paddingOffset :: "BoxStyle \<Rightarrow> int" where
  "paddingOffset st = (if padding st mod 2 = 0 then padding st else padding st + 1)"

definition leftSpace :: "BoxStyle \<Rightarrow> ustring" where
  "leftSpace st = (if marginLeft st > 0 then concat (replicate (nat (marginLeft st)) sp) else [])"

definition valignOffset :: "BoxStyle \<Rightarrow> int \<Rightarrow> int \<Rightarrow> int" where
  "valignOffset st height n =
     (if valign st = ''center'' then (height - n) div 2
      else if valign st = ''top'' then height - n - paddingOffset st
      else height - n)"

text \<open>
  The two parameters of \<open>box\<close> are of the repository but outside the algorithm:
  \<open>getColor\<close> (color.ts; it always returns a function, the identity when colours are
  off, so the \<open>if (_color)\<close> tests of the source always succeed) and \<open>stripAnsi\<close>
  (string.ts, a regular-expression replacement).
\<close>

definition top_border ::
  "(ustring \<Rightarrow> ustring) \<Rightarrow> (ustring \<Rightarrow> ustring) \<Rightarrow> BoxOpts \<Rightarrow> BoxStyle \<Rightarrow> BoxBorderStyle \<Rightarrow> int \<Rightarrow> failure + ustring" where
  "top_border col stripAnsi opts st bs width =
     (case title opts of
        Some t \<Rightarrow>
          (if t \<noteq> [] then
             bind (js_repeat (b_h bs) ((width - int (length (stripAnsi t))) div 2)) (\<lambda>left.
             bind (js_repeat (b_h bs)
                     (width - int (length (stripAnsi t)) - int (length (stripAnsi left))
                        + paddingOffset st)) (\<lambda>right.
             Inr (leftSpace st @ b_tl bs @ left @ col t @ right @ b_tr bs)))
           else
             bind (js_repeat (b_h bs) (width + paddingOffset st)) (\<lambda>line.
             Inr (leftSpace st @ b_tl bs @ line @ b_tr bs)))
      | None \<Rightarrow>
          bind (js_repeat (b_h bs) (width + paddingOffset st)) (\<lambda>line.
          Inr (leftSpace st @ b_tl bs @ line @ b_tr bs)))"

definition content_row ::
  "(ustring \<Rightarrow> ustring) \<Rightarrow> BoxStyle \<Rightarrow> BoxBorderStyle \<Rightarrow> ustring list \<Rightarrow> int \<Rightarrow> int \<Rightarrow> int \<Rightarrow> failure + ustring" where
  "content_row stripAnsi st bs textLines width off i =
     (if i < off \<or> i \<ge> off + int (length textLines) then
        bind (js_repeat sp (width + paddingOffset st)) (\<lambda>blank.
        Inr (leftSpace st @ b_v bs @ blank @ b_v bs))
      else
        let line = textLines ! nat (i - off) in
        bind (js_repeat sp (paddingOffset st)) (\<lambda>left.
        bind (js_repeat sp (width - int (length (stripAnsi line)))) (\<lambda>right.
        Inr (leftSpace st @ b_v bs @ left @ line @ right @ b_v bs))))"

definition boxLines ::
  "(string \<Rightarrow> ustring \<Rightarrow> ustring) \<Rightarrow> (ustring \<Rightarrow> ustring) \<Rightarrow> ustring \<Rightarrow> BoxOpts \<Rightarrow> failure + ustring list" where
  "boxLines getColor stripAnsi txt opts =
     (let st = merged_style (style opts);
          textLines = split_nl txt;
          col = getColor (borderColor st);
          bs = color_border col (resolve_border (borderStyle st));
          height = int (length textLines) + paddingOffset st;
          width = maximum (map (\<lambda>line. int (length (stripAnsi line))) textLines) + paddingOffset st;
          top_margin = (if marginTop st > 0 then [concat (replicate (nat (marginTop st)) [])] else []);
          bottom_margin = (if marginBottom st > 0 then [concat (replicate (nat (marginBottom st)) [])] else [])
      in bind (top_border col stripAnsi opts st bs width) (\<lambda>top.
         bind (mapE (content_row stripAnsi st bs textLines width
                       (valignOffset st height (int (length textLines))))
                 (map int [0 ..< nat height])) (\<lambda>rows.
         bind (js_repeat (b_h bs) (width + paddingOffset st)) (\<lambda>line.
         Inr (top_margin @ [top] @ rows @ [leftSpace st @ b_bl bs @ line @ b_br bs] @ bottom_margin)))))"

definition box ::
  "(string \<Rightarrow> ustring \<Rightarrow> ustring) \<Rightarrow> (ustring \<Rightarrow> ustring) \<Rightarrow> ustring \<Rightarrow> BoxOpts \<Rightarrow> failure + ustring" where
  "box getColor stripAnsi txt opts =
     bind (boxLines getColor stripAnsi txt opts) (\<lambda>ls. Inr (join nl ls))"

section \<open>Values of the dispatch engine\<close>

text \<open>
  Call arguments are arbitrary JavaScript values. The model has the values the engine
  tells apart: numbers are integers or one of the two infinities (the severities of the
  specification; fractions and NaN are left out), strings are sequences of code units
  below 256 (the engine compares, joins and lower-cases strings, it never measures
  them), a plain object is its list of own properties in insertion order (keys are not
  repeated), \<open>JErr message stack\<close> is an \<open>Error\<close> instance, and \<open>JCyclic\<close> is the
  plain object \<open>o\<close> built by \<open>const o = {}; o.self = o\<close>.
\<close>

datatype jsnum = NegInf | Fin int | PosInf

datatype jsval =
    JUndefined
  | JNull
  | JBool bool
  | JNum jsnum
  | JStr string
  | JBigInt int
  | JDate int
  | JArr "jsval list"
  | JObj "(string \<times> jsval) list"
  | JCyclic
  | JErr string string

type_synonym obj = "(string \<times> jsval) list"

fun num_less :: "jsnum \<Rightarrow> jsnum \<Rightarrow> bool" where
  "num_less (Fin a) (Fin b) = (a < b)"
| "num_less NegInf NegInf = False"
| "num_less NegInf _ = True"
| "num_less _ NegInf = False"
| "num_less PosInf _ = False"
| "num_less _ PosInf = True"

text \<open>\<open>a > b\<close> on numbers; other operands would be coerced first, which is not modelled.\<close>

fun js_gt :: "jsval \<Rightarrow> jsval \<Rightarrow> failure + bool" where
  "js_gt (JNum a) (JNum b) = Inr (num_less b a)"
| "js_gt _ _ = Inl Unmodelled"

fun truthy :: "jsval \<Rightarrow> bool" where
  "truthy JUndefined = False"
| "truthy JNull = False"
| "truthy (JBool b) = b"
| "truthy (JNum n) = (n \<noteq> Fin 0)"
| "truthy (JStr s) = (s \<noteq> [])"
| "truthy (JBigInt i) = (i \<noteq> 0)"
| "truthy _ = True"

text \<open>
  Property read, write (\<open>o[k] = v\<close>), \<open>delete\<close> and \<open>Object.assign\<close> / spread.
  Should a property list name a key twice, its first entry is the property.
\<close>

definition getp :: "obj \<Rightarrow> string \<Rightarrow> jsval" where
  "getp ob k = (case map_of ob k of None \<Rightarrow> JUndefined | Some v \<Rightarrow> v)"

definition put :: "obj \<Rightarrow> string \<Rightarrow> jsval \<Rightarrow> obj" where
  "put ob k v = AList.update k v ob"

definition del :: "obj \<Rightarrow> string \<Rightarrow> obj" where
  "del ob k = AList.delete k ob"

definition assign :: "obj \<Rightarrow> obj \<Rightarrow> obj" where
  "assign target source = foldl (\<lambda>acc (k, v). put acc k v) target (AList.clearjunk source)"

text \<open>The own enumerable properties that \<open>Object.assign\<close> copies from a plain object.\<close>

fun own_props :: "jsval \<Rightarrow> obj" where
  "own_props (JObj ps) = ps"
| "own_props JCyclic = [(''self'', JCyclic)]"
| "own_props _ = []"

fun propOf :: "jsval \<Rightarrow> string \<Rightarrow> jsval" where
  "propOf v k = getp (own_props v) k"

subsection \<open>JSON.stringify\<close>

text \<open>
  \<open>JSON.stringify\<close> writes a value as a text that determines, and is determined by,
  the JSON tree of the value; the engine only compares two such texts, so the model
  keeps the tree. \<open>Inr None\<close> is the result \<open>undefined\<close> (the value is left out of an
  object and written \<open>null\<close> in an array). A BigInt and a cyclic object raise a
  TypeError. A date is written as its ISO text, which the model does not compute.
\<close>

datatype json =
    JsNull
  | JsBool bool
  | JsNum int
  | JsStr string
  | JsArr "json list"
  | JsObj "(string \<times> json) list"

fun stringify :: "jsval \<Rightarrow> failure + json option"
and stringify_elems :: "jsval list \<Rightarrow> failure + json list"
and stringify_props :: "(string \<times> jsval) list \<Rightarrow> failure + (string \<times> json) list" where
  "stringify JUndefined = Inr None"
| "stringify JNull = Inr (Some JsNull)"
| "stringify (JBool b) = Inr (Some (JsBool b))"
| "stringify (JNum (Fin i)) = Inr (Some (JsNum i))"
| "stringify (JNum NegInf) = Inr (Some JsNull)"
| "stringify (JNum PosInf) = Inr (Some JsNull)"
| "stringify (JStr s) = Inr (Some (JsStr s))"
| "stringify (JBigInt i) = Inl TypeError"
| "stringify (JDate t) = Inl Unmodelled"
| "stringify (JArr xs) = bind (stringify_elems xs) (\<lambda>js. Inr (Some (JsArr js)))"
| "stringify (JObj ps) = bind (stringify_props ps) (\<lambda>js. Inr (Some (JsObj js)))"
| "stringify JCyclic = Inl TypeError"
| "stringify (JErr m s) = Inr (Some (JsObj []))"
| "stringify_elems [] = Inr []"
| "stringify_elems (x # xs) =
     bind (stringify x) (\<lambda>j. bind (stringify_elems xs) (\<lambda>js.
       Inr ((case j of None \<Rightarrow> JsNull | Some v \<Rightarrow> v) # js)))"
| "stringify_props [] = Inr []"
| "stringify_props ((k, v) # ps) =
     bind (stringify v) (\<lambda>j. bind (stringify_props ps) (\<lambda>js.
       Inr ((case j of None \<Rightarrow> [] | Some w \<Rightarrow> [(k, w)]) @ js)))"

subsection \<open>Small pieces of the run-time system\<close>

text \<open>
  \<open>String.prototype.toLowerCase\<close> on code units below 256: the letters \<open>A\<close> to \<open>Z\<close>
  and the capital letters of Latin-1 (\<open>0xC0\<close> to \<open>0xDE\<close> without \<open>0xD7\<close>) move up by 32.
\<close>

definition upper_chars :: string where
  "upper_chars = ''ABCDEFGHIJKLMNOPQRSTUVWXYZ'' @
     [CHR 0xC0, CHR 0xC1, CHR 0xC2, CHR 0xC3, CHR 0xC4, CHR 0xC5, CHR 0xC6,
      CHR 0xC7, CHR 0xC8, CHR 0xC9, CHR 0xCA, CHR 0xCB, CHR 0xCC, CHR 0xCD,
      CHR 0xCE, CHR 0xCF, CHR 0xD0, CHR 0xD1, CHR 0xD2, CHR 0xD3, CHR 0xD4,
      CHR 0xD5, CHR 0xD6, CHR 0xD8, CHR 0xD9, CHR 0xDA, CHR 0xDB, CHR 0xDC,
      CHR 0xDD, CHR 0xDE]"

definition lower_chars :: string where
  "lower_chars = ''abcdefghijklmnopqrstuvwxyz'' @
     [CHR 0xE0, CHR 0xE1, CHR 0xE2, CHR 0xE3, CHR 0xE4, CHR 0xE5, CHR 0xE6,
      CHR 0xE7, CHR 0xE8, CHR 0xE9, CHR 0xEA, CHR 0xEB, CHR 0xEC, CHR 0xED,
      CHR 0xEE, CHR 0xEF, CHR 0xF0, CHR 0xF1, CHR 0xF2, CHR 0xF3, CHR 0xF4,
      CHR 0xF5, CHR 0xF6, CHR 0xF8, CHR 0xF9, CHR 0xFA, CHR 0xFB, CHR 0xFC,
      CHR 0xFD, CHR 0xFE]"

definition lower_char :: "char \<Rightarrow> char" where
  "lower_char c = (case map_of (zip upper_chars lower_chars) c of None \<Rightarrow> c | Some l \<Rightarrow> l)"

definition toLowerCase :: "string \<Rightarrow> string" where
  "toLowerCase s = map lower_char s"

text \<open>\<open>s.split("\n")\<close> on an engine string.\<close>

fun split_lines :: "string \<Rightarrow> string list" where
  "split_lines [] = [[]]"
| "split_lines (c # cs) =
     (if c = CHR 0x0A then [] # split_lines cs
      else (case split_lines cs of [] \<Rightarrow> [[c]] | l # ls \<Rightarrow> (c # l) # ls))"

text \<open>
  \<open>xs.join("\n")\<close>: a string element is itself, \<open>null\<close> and \<open>undefined\<close> are empty;
  the conversion of other elements to text is not modelled.
\<close>

fun join_item :: "jsval \<Rightarrow> failure + string" where
  "join_item (JStr s) = Inr s"
| "join_item JUndefined = Inr []"
| "join_item JNull = Inr []"
| "join_item _ = Inl Unmodelled"

fun join_lines :: "string list \<Rightarrow> string" where
  "join_lines [] = []"
| "join_lines [x] = x"
| "join_lines (x # y # ys) = x @ [CHR 0x0A] @ join_lines (y # ys)"

text \<open>Decimal text of an integer, as a template literal prints a number.\<close>

fun show_nat :: "nat \<Rightarrow> string" where
  "show_nat n = (if n < 10 then [char_of (48 + n)] else show_nat (n div 10) @ [char_of (48 + n mod 10)])"

definition show_int :: "int \<Rightarrow> string" where
  "show_int i = (if i < 0 then CHR ''-'' # show_nat (nat (- i)) else show_nat (nat i))"

text \<open>\<open>d.getTime()\<close>: only a date has the method.\<close>

fun getTime :: "jsval \<Rightarrow> failure + int" where
  "getTime (JDate t) = Inr t"
| "getTime _ = Inl TypeError"

text \<open>\<open>[...v]\<close>: an array and a string are iterable, the other values of the model are not.\<close>

fun spread :: "jsval \<Rightarrow> failure + jsval list" where
  "spread (JArr xs) = Inr xs"
| "spread (JStr s) = Inr (map (\<lambda>c. JStr [c]) s)"
| "spread _ = Inl TypeError"

text \<open>\<open>v.unshift(x)\<close> and \<open>v.push(x)\<close>: only an array has the methods.\<close>

fun unshift :: "jsval \<Rightarrow> jsval \<Rightarrow> failure + jsval" where
  "unshift (JArr xs) x = Inr (JArr (x # xs))"
| "unshift _ x = Inl TypeError"

fun push :: "jsval \<Rightarrow> jsval \<Rightarrow> failure + jsval" where
  "push (JArr xs) x = Inr (JArr (xs @ [x]))"
| "push _ x = Inl TypeError"

section \<open>The dispatch engine (src/consola.ts, src/utils/log.ts, src/constants.ts)\<close>

subsection \<open>Structural detection of a log record\<close>

text \<open>\<open>Object.prototype.toString.call(obj) === "[object Object]"\<close>.\<close>

fun isPlainObject :: "jsval \<Rightarrow> bool" where
  "isPlainObject (JObj ps) = True"
| "isPlainObject JCyclic = True"
| "isPlainObject _ = False"

definition isLogObj :: "jsval \<Rightarrow> bool" where
  "isLogObj arg =
     (if \<not> isPlainObject arg then False
      else if \<not> truthy (propOf arg ''message'') \<and> \<not> truthy (propOf arg ''args'') then False
      else if truthy (propOf arg ''stack'') then False
      else True)"

subsection \<open>Severities and kinds\<close>

definition LogTypes :: "(string \<times> obj) list" where
  "LogTypes =
     [(''silent'', [(''level'', JNum (Fin (- 1)))]),
      (''fatal'', [(''level'', JNum (Fin 0))]),
      (''error'', [(''level'', JNum (Fin 0))]),
      (''warn'', [(''level'', JNum (Fin 1))]),
      (''log'', [(''level'', JNum (Fin 2))]),
      (''info'', [(''level'', JNum (Fin 3))]),
      (''success'', [(''level'', JNum (Fin 3))]),
      (''fail'', [(''level'', JNum (Fin 3))]),
      (''ready'', [(''level'', JNum (Fin 3))]),
      (''start'', [(''level'', JNum (Fin 3))]),
      (''box'', [(''level'', JNum (Fin 3))]),
      (''debug'', [(''level'', JNum (Fin 4))]),
      (''trace'', [(''level'', JNum (Fin 5))]),
      (''verbose'', [(''level'', JNum PosInf)])]"

definition LogLevels :: "(string \<times> jsnum) list" where
  "LogLevels =
     [(''silent'', NegInf), (''fatal'', Fin 0), (''error'', Fin 0), (''warn'', Fin 1),
      (''log'', Fin 2), (''info'', Fin 3), (''success'', Fin 3), (''fail'', Fin 3),
      (''ready'', Fin 3), (''start'', Fin 3), (''box'', Fin 3), (''debug'', Fin 4),
      (''trace'', Fin 5), (''verbose'', PosInf)]"

text \<open>
  \<open>_normalizeLogLevel(input, types, defaultLevel)\<close>. A key that is not a string is
  turned into one by the engine; this is written out for \<open>null\<close> and the booleans only.
\<close>

definition level_of_kind :: "(string \<times> obj) list \<Rightarrow> string \<Rightarrow> jsval \<Rightarrow> jsval" where
  "level_of_kind tys k defaultLevel =
     (case map_of tys k of
        None \<Rightarrow> defaultLevel
      | Some t \<Rightarrow> if getp t ''level'' \<noteq> JUndefined then getp t ''level'' else defaultLevel)"

fun normalizeLogLevel :: "jsval \<Rightarrow> (string \<times> obj) list \<Rightarrow> jsval \<Rightarrow> failure + jsval" where
  "normalizeLogLevel JUndefined tys defaultLevel = Inr defaultLevel"
| "normalizeLogLevel (JNum n) tys defaultLevel = Inr (JNum n)"
| "normalizeLogLevel (JStr s) tys defaultLevel = Inr (level_of_kind tys s defaultLevel)"
| "normalizeLogLevel JNull tys defaultLevel = Inr (level_of_kind tys ''null'' defaultLevel)"
| "normalizeLogLevel (JBool b) tys defaultLevel =
     Inr (level_of_kind tys (if b then ''true'' else ''false'') defaultLevel)"
| "normalizeLogLevel _ tys defaultLevel = Inl Unmodelled"

subsection \<open>Instances\<close>

text \<open>
  A reporter is known by its identity (a number); what it does with a record is outside
  the engine. The options not read by dispatch (streams, format options, prompt, mock
  function) are left out.
\<close>

record ConsolaOptions =
  reporters :: "nat list"
  types :: "(string \<times> obj) list"
  level :: jsval
  defaults :: obj
  throttle :: int
  throttleMin :: int

text \<open>\<open>Partial<ConsolaOptions>\<close>, the argument of the constructor.\<close>

record PartialOptions =
  reporters_opt :: "nat list option"
  types_opt :: "(string \<times> obj) list option"
  level_opt :: jsval
  defaults_opt :: "obj option"
  throttle_opt :: "int option"
  throttleMin_opt :: "int option"

record LastLog =
  serialized :: "json option"
  object :: "obj option"
  count :: "int option"
  time :: jsval
  timeout :: "int option"

text \<open>
  \<open>sites\<close> holds, for each kind, the \<open>defaults\<close> object that the constructor binds into
  the two call-sites of the kind (\<open>instance[kind]\<close> and \<open>instance[kind].raw\<close>).
\<close>

record Consola =
  options :: ConsolaOptions
  sites :: "(string \<times> obj) list"
  lastLog :: LastLog

text \<open>
  The constructor merges its argument with library defaults through \<open>defu\<close>
  (a third-party function): a missing \<open>throttle\<close> is 1000, a missing \<open>throttleMin\<close> is 5,
  and the kinds given are laid over \<open>LogTypes\<close>, property by property, skipping
  \<open>null\<close> and \<open>undefined\<close>.
\<close>

definition defu_entry :: "obj \<Rightarrow> obj \<Rightarrow> obj" where
  "defu_entry e b =
     foldl (\<lambda>acc (k, v). if v = JUndefined \<or> v = JNull then acc else put acc k v) b e"

definition defu_types :: "(string \<times> obj) list \<Rightarrow> (string \<times> obj) list" where
  "defu_types custom =
     foldl (\<lambda>acc (k, e). AList.update k (case map_of acc k of None \<Rightarrow> e | Some b \<Rightarrow> defu_entry e b) acc)
       LogTypes custom"

definition site_defaults :: "obj \<Rightarrow> string \<Rightarrow> obj \<Rightarrow> obj" where
  "site_defaults ds ty td = assign (assign [(''type'', JStr ty)] ds) td"

definition emptyLog :: LastLog where
  "emptyLog = \<lparr>serialized = None, object = None, count = None, time = JUndefined, timeout = None\<rparr>"

definition new_Consola :: "PartialOptions \<Rightarrow> failure + Consola" where
  "new_Consola po =
     (let tys = or_default (types_opt po) LogTypes;
          ds = or_default (defaults_opt po) []
      in bind (normalizeLogLevel (level_opt po) tys (JNum (Fin 3))) (\<lambda>l.
         Inr \<lparr>options = \<lparr>reporters = or_default (reporters_opt po) [],
                           types = (case types_opt po of None \<Rightarrow> LogTypes | Some t \<Rightarrow> defu_types t),
                           level = l,
                           defaults = ds,
                           throttle = or_default (throttle_opt po) 1000,
                           throttleMin = or_default (throttleMin_opt po) 5\<rparr>,
              sites = map (\<lambda>(ty, td). (ty, site_defaults ds ty td)) tys,
              lastLog = emptyLog\<rparr>))"

text \<open>\<open>{...this.options, ...options}\<close>: the fields given override those of the instance.\<close>

definition overlay :: "ConsolaOptions \<Rightarrow> PartialOptions \<Rightarrow> PartialOptions" where
  "overlay os po =
     \<lparr>reporters_opt = Some (or_default (reporters_opt po) (reporters os)),
      types_opt = Some (or_default (types_opt po) (types os)),
      level_opt = (if level_opt po = JUndefined then level os else level_opt po),
      defaults_opt = Some (or_default (defaults_opt po) (defaults os)),
      throttle_opt = Some (or_default (throttle_opt po) (throttle os)),
      throttleMin_opt = Some (or_default (throttleMin_opt po) (throttleMin os))\<rparr>"

definition create :: "Consola \<Rightarrow> PartialOptions \<Rightarrow> failure + Consola" where
  "create c po = new_Consola (overlay (options c) po)"

definition withDefaults :: "Consola \<Rightarrow> obj \<Rightarrow> failure + Consola" where
  "withDefaults c ds =
     create c (overlay (options c)
       \<lparr>reporters_opt = None, types_opt = None, level_opt = JUndefined,
        defaults_opt = Some (assign (defaults (options c)) ds),
        throttle_opt = None, throttleMin_opt = None\<rparr>)"

text \<open>
  \<open>withTag\<close>. The \<open>+\<close> joins strings; a truthy default tag that is not a string would
  be converted to text first, which is not modelled.
\<close>

definition withTag :: "Consola \<Rightarrow> string \<Rightarrow> failure + Consola" where
  "withTag c tag =
     (let t = getp (defaults (options c)) ''tag''
      in if truthy t then
           (case t of
              JStr s \<Rightarrow> withDefaults c [(''tag'', JStr (s @ '':'' @ tag))]
            | _ \<Rightarrow> Inl Unmodelled)
         else withDefaults c [(''tag'', JStr tag)])"

definition default_tag :: "Consola \<Rightarrow> jsval" where
  "default_tag c = getp (defaults (options c)) ''tag''"

definition setLevel :: "Consola \<Rightarrow> jsval \<Rightarrow> failure + Consola" where
  "setLevel c l =
     bind (normalizeLogLevel l (types (options c)) (level (options c))) (\<lambda>l'.
     Inr (c\<lparr>options := (options c)\<lparr>level := l'\<rparr>\<rparr>))"

definition addReporter :: "Consola \<Rightarrow> nat \<Rightarrow> Consola" where
  "addReporter c r = c\<lparr>options := (options c)\<lparr>reporters := reporters (options c) @ [r]\<rparr>\<rparr>"

subsection \<open>Building the record (\<open>_logFn\<close>, first half)\<close>

text \<open>The severity test at the head of \<open>_logFn\<close>: \<open>(defaults.level || 0) > this.level\<close>.\<close>

definition site_level :: "obj \<Rightarrow> jsval" where
  "site_level d = (if truthy (getp d ''level'') then getp d ''level'' else JNum (Fin 0))"

definition exceeds :: "Consola \<Rightarrow> obj \<Rightarrow> failure + bool" where
  "exceeds c d = js_gt (site_level d) (level (options c))"

definition baseLogObj :: "Consola \<Rightarrow> obj \<Rightarrow> int \<Rightarrow> failure + obj" where
  "baseLogObj c d now =
     bind (normalizeLogLevel (getp d ''level'') (types (options c)) (JNum (Fin 3))) (\<lambda>l.
     Inr (put (assign [(''date'', JDate now), (''args'', JArr [])] d) ''level'' l))"

text \<open>\<open>args[0]\<close>, which is \<open>undefined\<close> when there is no argument.\<close>

fun first_arg :: "jsval list \<Rightarrow> jsval" where
  "first_arg [] = JUndefined"
| "first_arg (a # rest) = a"

text \<open>\<open>!isRaw && args.length === 1 && isLogObj(args[0])\<close>\<close>

definition treatedAsRecord :: "bool \<Rightarrow> jsval list \<Rightarrow> bool" where
  "treatedAsRecord isRaw args = (\<not> isRaw \<and> length args = 1 \<and> isLogObj (first_arg args))"

definition placeArgs :: "bool \<Rightarrow> jsval list \<Rightarrow> obj \<Rightarrow> obj" where
  "placeArgs isRaw args lo =
     (if treatedAsRecord isRaw args then assign lo (own_props (first_arg args))
      else put lo ''args'' (JArr args))"

text \<open>
  Arrays are values in the model. Two places of \<open>_logFn\<close> change an array in place
  (\<open>unshift\<close> and \<open>push\<close> on \<open>logObj.args\<close>). When the array is the one of the argument
  object, the change is seen by the caller only. When it is the \<open>args\<close> array of the
  kind defaults (the argument is merged, has no \<open>args\<close> of its own, and the defaults
  have), the change would reach later records; the model stops there.
\<close>

definition sharesDefaultArgs :: "bool \<Rightarrow> jsval list \<Rightarrow> obj \<Rightarrow> bool" where
  "sharesDefaultArgs isRaw args d =
     (treatedAsRecord isRaw args \<and> map_of (own_props (first_arg args)) ''args'' = None
        \<and> map_of d ''args'' \<noteq> None)"

definition applyMessage :: "bool \<Rightarrow> obj \<Rightarrow> failure + obj" where
  "applyMessage shared lo =
     (if truthy (getp lo ''message'') then
        (if shared then Inl Unmodelled
         else bind (unshift (getp lo ''args'') (getp lo ''message'')) (\<lambda>a.
              Inr (del (put lo ''args'' a) ''message'')))
      else Inr lo)"

definition additional_lines :: "jsval \<Rightarrow> failure + jsval list" where
  "additional_lines a =
     (case a of
        JArr xs \<Rightarrow> Inr xs
      | JStr s \<Rightarrow> Inr (map JStr (split_lines s))
      | _ \<Rightarrow> Inl TypeError)"

definition applyAdditional :: "bool \<Rightarrow> obj \<Rightarrow> failure + obj" where
  "applyAdditional shared lo =
     (if truthy (getp lo ''additional'') then
        bind (additional_lines (getp lo ''additional'')) (\<lambda>xs.
        if getp lo ''args'' = JUndefined \<or> getp lo ''args'' = JNull then Inl TypeError
        else
          bind (mapE join_item xs) (\<lambda>parts.
          if shared then Inl Unmodelled
          else bind (push (getp lo ''args'') (JStr (CHR 0x0A # join_lines parts))) (\<lambda>a.
               Inr (del (put lo ''args'' a) ''additional''))))
      else Inr lo)"

definition normalizeTypeTag :: "obj \<Rightarrow> obj" where
  "normalizeTypeTag lo =
     put (put lo ''type'' (case getp lo ''type'' of JStr s \<Rightarrow> JStr (toLowerCase s) | _ \<Rightarrow> JStr ''log''))
       ''tag'' (case getp lo ''tag'' of JStr s \<Rightarrow> JStr s | _ \<Rightarrow> JStr [])"

definition buildLogObj :: "Consola \<Rightarrow> obj \<Rightarrow> jsval list \<Rightarrow> bool \<Rightarrow> int \<Rightarrow> failure + obj" where
  "buildLogObj c d args isRaw now =
     bind (baseLogObj c d now) (\<lambda>lo0.
     bind (applyMessage (sharesDefaultArgs isRaw args d) (placeArgs isRaw args lo0)) (\<lambda>lo1.
     bind (applyAdditional (sharesDefaultArgs isRaw args d) lo1) (\<lambda>lo2.
     Inr (normalizeTypeTag lo2))))"

subsection \<open>Duplicate suppression (\<open>_logFn\<close>, second half)\<close>

text \<open>\<open>_log\<close>: every reporter of the instance receives the record, in order.\<close>

definition log_to_reporters :: "Consola \<Rightarrow> obj \<Rightarrow> (nat \<times> obj) list" where
  "log_to_reporters c lo = map (\<lambda>r. (r, lo)) (reporters (options c))"

definition count_or_0 :: "Consola \<Rightarrow> int" where
  "count_or_0 c = (case count (lastLog c) of None \<Rightarrow> 0 | Some n \<Rightarrow> n)"

definition repeated_note :: "int \<Rightarrow> jsval" where
  "repeated_note n = JStr (''(repeated '' @ show_int n @ '' times)'')"

text \<open>
  \<open>resolveLog(newLog)\<close>; the result is the instance and the reporter calls made.
  The first part flushes a pending repeat, the second shows the new record.
\<close>

definition flushPending :: "Consola \<Rightarrow> failure + Consola \<times> (nat \<times> obj) list" where
  "flushPending c =
     (let repeated = count_or_0 c - throttleMin (options c)
      in case object (lastLog c) of
           None \<Rightarrow> Inr (c, [])
         | Some ob \<Rightarrow>
             if repeated > 0 then
               bind (spread (getp ob ''args'')) (\<lambda>xs.
               Inr (c\<lparr>lastLog := (lastLog c)\<lparr>count := Some 1\<rparr>\<rparr>,
                    log_to_reporters c
                      (put ob ''args'' (JArr (if repeated > 1 then xs @ [repeated_note repeated] else xs)))))
             else Inr (c, []))"

definition resolveLog :: "Consola \<Rightarrow> obj \<Rightarrow> bool \<Rightarrow> failure + Consola \<times> (nat \<times> obj) list" where
  "resolveLog c lo newLog =
     bind (flushPending c) (\<lambda>(c1, out).
     if newLog then Inr (c1\<lparr>lastLog := (lastLog c1)\<lparr>object := Some lo\<rparr>\<rparr>, out @ log_to_reporters c1 lo)
     else Inr (c1, out))"

definition fingerprint :: "obj \<Rightarrow> failure + json option" where
  "fingerprint lo = stringify (JArr [getp lo ''type'', getp lo ''tag'', getp lo ''args''])"

definition diffTime :: "Consola \<Rightarrow> obj \<Rightarrow> failure + int" where
  "diffTime c lo =
     (if truthy (time (lastLog c)) \<and> truthy (getp lo ''date'') then
        bind (getTime (getp lo ''date'')) (\<lambda>a.
        bind (getTime (time (lastLog c))) (\<lambda>b. Inr (a - b)))
      else Inr 0)"

text \<open>
  The part of \<open>_logFn\<close> from \<open>clearTimeout\<close> on. \<open>timeout\<close> is the time at which the
  pending timer is due, if one is pending. An exception of \<open>JSON.stringify\<close> is caught
  by the \<open>try\<close>; nothing else in the \<open>try\<close> block raises.
\<close>

definition throttled :: "Consola \<Rightarrow> obj \<Rightarrow> int \<Rightarrow> failure + Consola \<times> (nat \<times> obj) list" where
  "throttled c lo now =
     (let c1 = c\<lparr>lastLog := (lastLog c)\<lparr>timeout := None\<rparr>\<rparr>
      in bind (diffTime c1 lo) (\<lambda>dt.
         let c2 = c1\<lparr>lastLog := (lastLog c1)\<lparr>time := getp lo ''date''\<rparr>\<rparr>
         in if dt < throttle (options c2) then
              (case fingerprint lo of
                 Inl Unmodelled \<Rightarrow> Inl Unmodelled
               | Inl e \<Rightarrow> resolveLog c2 lo True
               | Inr s \<Rightarrow>
                   let isSameLog = (serialized (lastLog c2) = s);
                       c3 = c2\<lparr>lastLog := (lastLog c2)\<lparr>serialized := s\<rparr>\<rparr>
                   in if isSameLog then
                        let c4 = c3\<lparr>lastLog := (lastLog c3)\<lparr>count := Some (count_or_0 c3 + 1)\<rparr>\<rparr>
                        in if count_or_0 c4 > throttleMin (options c4) then
                             Inr (c4\<lparr>lastLog := (lastLog c4)\<lparr>timeout := Some (now + throttle (options c4))\<rparr>\<rparr>, [])
                           else resolveLog c4 lo True
                      else resolveLog c3 lo True)
            else resolveLog c2 lo True))"

text \<open>
  \<open>_logFn(defaults, args, isRaw)\<close> at time \<open>now\<close> (the value of \<open>new Date()\<close>): the
  instance afterwards, the reporter calls made, and the value returned (\<open>false\<close> when
  the record is dropped, \<open>undefined\<close> otherwise).
\<close>

definition logFn :: "Consola \<Rightarrow> obj \<Rightarrow> jsval list \<Rightarrow> bool \<Rightarrow> int \<Rightarrow> failure + Consola \<times> (nat \<times> obj) list \<times> jsval" where
  "logFn c d args isRaw now =
     bind (exceeds c d) (\<lambda>over.
     if over then Inr (c, [], JBool False)
     else bind (buildLogObj c d args isRaw now) (\<lambda>lo.
          bind (throttled c lo now) (\<lambda>(c', out). Inr (c', out, JUndefined))))"

text \<open>The deferred timer runs \<open>resolveLog()\<close> with no new record.\<close>

definition timerFires :: "Consola \<Rightarrow> failure + Consola \<times> (nat \<times> obj) list" where
  "timerFires c =
     (case timeout (lastLog c) of
        None \<Rightarrow> Inr (c, [])
      | Some due \<Rightarrow> flushPending (c\<lparr>lastLog := (lastLog c)\<lparr>timeout := None\<rparr>\<rparr>))"

subsection \<open>Pause and resume\<close>

text \<open>
  The pause flag and the queue are module variables, shared by all instances; the queue
  holds references to instances, so the instances live in a store, by number.
  \<open>rendered\<close> is the sequence of reporter calls made so far.
\<close>

type_synonym queued = "nat \<times> obj \<times> jsval list \<times> bool"

record world =
  paused :: bool
  queue :: "queued list"
  insts :: "nat \<Rightarrow> Consola"
  rendered :: "(nat \<times> obj) list"

definition logFn_at :: "nat \<Rightarrow> obj \<Rightarrow> jsval list \<Rightarrow> bool \<Rightarrow> int \<Rightarrow> world \<Rightarrow> failure + world" where
  "logFn_at i d args isRaw now w =
     bind (logFn (insts w i) d args isRaw now) (\<lambda>(c', out, r).
     Inr (w\<lparr>insts := (insts w)(i := c'), rendered := rendered w @ out\<rparr>))"

text \<open>The closure made by \<open>_wrapLogFn(defaults, isRaw)\<close> of instance \<open>i\<close>, applied to \<open>args\<close>.\<close>

definition wrapLogFn :: "nat \<Rightarrow> obj \<Rightarrow> bool \<Rightarrow> jsval list \<Rightarrow> int \<Rightarrow> world \<Rightarrow> failure + world" where
  "wrapLogFn i d isRaw args now w =
     (if paused w then Inr (w\<lparr>queue := queue w @ [(i, d, args, isRaw)]\<rparr>)
      else logFn_at i d args isRaw now w)"

text \<open>\<open>instance[kind](...args)\<close> and \<open>instance[kind].raw(...args)\<close>; a kind that is not configured has no call-site.\<close>

definition dispatch :: "nat \<Rightarrow> string \<Rightarrow> bool \<Rightarrow> jsval list \<Rightarrow> int \<Rightarrow> world \<Rightarrow> failure + world" where
  "dispatch i kind isRaw args now w =
     (case map_of (sites (insts w i)) kind of
        None \<Rightarrow> Inl TypeError
      | Some d \<Rightarrow> wrapLogFn i d isRaw args now w)"

definition pauseLogs :: "world \<Rightarrow> world" where
  "pauseLogs w = w\<lparr>paused := True\<rparr>"

text \<open>
  \<open>resumeLogs\<close>: the loop over the spliced queue calls \<open>item[0]._logFn(item[1], item[2])\<close>,
  so \<open>isRaw\<close> is \<open>undefined\<close> in the call. \<open>clock k\<close> is the time read by the \<open>k\<close>-th call.
\<close>

fun resume_loop :: "(nat \<Rightarrow> int) \<Rightarrow> nat \<Rightarrow> queued list \<Rightarrow> world \<Rightarrow> failure + world" where
  "resume_loop clock k [] w = Inr w"
| "resume_loop clock k ((i, d, args, isRaw) # items) w =
     bind (logFn_at i d args False (clock k) w) (\<lambda>w'. resume_loop clock (Suc k) items w')"

definition resumeLogs :: "(nat \<Rightarrow> int) \<Rightarrow> world \<Rightarrow> failure + world" where
  "resumeLogs clock w = resume_loop clock 0 (queue w) (w\<lparr>paused := False, queue := []\<rparr>)"

subsection \<open>Runs of the engine\<close>

text \<open>
  The module state when it is loaded (not paused, empty queue), with every instance
  number standing for an instance in the state \<open>c\<close>.
\<close>

definition start_world :: "Consola \<Rightarrow> world" where
  "start_world c = \<lparr>paused = False, queue = [], insts = (\<lambda>i. c), rendered = []\<rparr>"

text \<open>A sequence of call-site invocations, each a queued tuple and the time of the call.\<close>

fun dispatch_all :: "(queued \<times> int) list \<Rightarrow> world \<Rightarrow> failure + world" where
  "dispatch_all [] w = Inr w"
| "dispatch_all (((i, d, args, isRaw), now) # cs) w =
     bind (wrapLogFn i d isRaw args now w) (dispatch_all cs)"

text \<open>
  The reading of "each queued dispatch is invoked exactly once, in submission order":
  the numbered items are handed to \<open>_logFn\<close> one after the other, item \<open>k\<close> at time
  \<open>clock k\<close>, with the instance, the defaults and the arguments of the item (its raw flag
  is not part of the call, see \<open>resumeLogs\<close>); an exception of one call ends the run, as
  it ends the loop of \<open>resumeLogs\<close>.
\<close>

fun replay_in_order :: "(nat \<Rightarrow> int) \<Rightarrow> (nat \<times> queued) list \<Rightarrow> world \<Rightarrow> failure + world" where
  "replay_in_order clock [] w = Inr w"
| "replay_in_order clock ((k, (i, d, args, isRaw)) # rest) w =
     bind (logFn_at i d args False (clock k) w) (replay_in_order clock rest)"

text \<open>The setter \<open>instance.level = l\<close> on instance \<open>i\<close>.\<close>

definition setLevel_at :: "nat \<Rightarrow> jsval \<Rightarrow> world \<Rightarrow> failure + world" where
  "setLevel_at i l w = bind (setLevel (insts w i) l) (\<lambda>c. Inr (w\<lparr>insts := (insts w)(i := c)\<rparr>))"

text \<open>What the reporters were handed: reporter, severity and positional arguments of each call.\<close>

definition shown_levels :: "world \<Rightarrow> (nat \<times> jsval \<times> jsval) list" where
  "shown_levels w = map (\<lambda>(r, lo). (r, getp lo ''level'', getp lo ''args'')) (rendered w)"

text \<open>What the reporters were handed: reporter and positional arguments of each call.\<close>

definition shown_args :: "world \<Rightarrow> (nat \<times> jsval) list" where
  "shown_args w = map (\<lambda>(r, lo). (r, getp lo ''args'')) (rendered w)"

text \<open>
  The instance that \<open>createConsola({ reporters })\<close> builds: the kinds of \<open>LogTypes\<close>,
  threshold 3, no defaults, a window of 1000 ms and \<open>throttleMin = 5\<close>.
\<close>

definition plain_instance :: "nat list \<Rightarrow> Consola" where
  "plain_instance rs =
     \<lparr>options = \<lparr>reporters = rs, types = LogTypes, level = JNum (Fin 3), defaults = [],
                  throttle = 1000, throttleMin = 5\<rparr>,
      sites = map (\<lambda>(ty, td). (ty, site_defaults [] ty td)) LogTypes,
      lastLog = emptyLog\<rparr>"

subsection \<open>Typed states and runs of records\<close>

text \<open>
  The declared type of \<open>_lastLog\<close>: \<open>time\<close> is a \<open>Date\<close> when it is set, and \<open>object\<close> is a
  \<open>LogObject\<close>, whose \<open>args\<close> is an array. The same for a record: its \<open>date\<close> is a
  \<open>Date\<close> and its \<open>args\<close> an array.
\<close>

fun is_date :: "jsval \<Rightarrow> bool" where
  "is_date (JDate t) = True"
| "is_date _ = False"

fun is_array :: "jsval \<Rightarrow> bool" where
  "is_array (JArr xs) = True"
| "is_array _ = False"

definition typed_record :: "obj \<Rightarrow> bool" where
  "typed_record lo = (is_date (getp lo ''date'') \<and> is_array (getp lo ''args''))"

definition typed_state :: "Consola \<Rightarrow> bool" where
  "typed_state c =
     ((time (lastLog c) = JUndefined \<or> is_date (time (lastLog c)))
      \<and> (case object (lastLog c) of None \<Rightarrow> True | Some ob \<Rightarrow> is_array (getp ob ''args'')))"

text \<open>
  Records handed one after the other to the duplicate suppression of one instance,
  each with the time of its dispatch; the result lists what each dispatch rendered.
\<close>

fun throttled_all :: "Consola \<Rightarrow> (obj \<times> int) list \<Rightarrow> failure + Consola \<times> (nat \<times> obj) list list" where
  "throttled_all c [] = Inr (c, [])"
| "throttled_all c ((lo, now) # rest) =
     bind (throttled c lo now) (\<lambda>(c', out).
     bind (throttled_all c' rest) (\<lambda>(c'', outs). Inr (c'', out # outs)))"

text \<open>The record \<open>lo\<close> with the time stamp \<open>t\<close>.\<close>

definition dated :: "obj \<Rightarrow> int \<Rightarrow> obj" where
  "dated lo t = put lo ''date'' (JDate t)"

text \<open>
  A plain call: the defaults of the call-site carry no message, no additional text and
  no date, their level is a number or missing, and the arguments are positional (they
  are not one object that is detected as a record).
\<close>

definition plain_site :: "obj \<Rightarrow> bool" where
  "plain_site d =
     (\<not> truthy (getp d ''message'') \<and> \<not> truthy (getp d ''additional'')
      \<and> map_of d ''date'' = None
      \<and> (case getp d ''level'' of JUndefined \<Rightarrow> True | JNum n \<Rightarrow> True | _ \<Rightarrow> False))"

fun is_number :: "jsval \<Rightarrow> bool" where
  "is_number (JNum n) = True"
| "is_number _ = False"

section \<open>Results on tree drawing\<close>

lemma buildTree_limit_empty:
  "buildTree colorize [] opts = []"
  by (simp add: buildTree_def)

text \<open>
  C10. At the depth limit (remaining \<open>maxDepth \<le> 0\<close>), a sibling list with a first item
  \<open>item\<close> and any further siblings \<open>rest\<close> is rendered as exactly one chunk: the
  ellipsis line, coloured with the colour of \<open>item\<close> when \<open>item\<close> is an object carrying
  a colour, and plain otherwise. The siblings in \<open>rest\<close> do not occur in the result.
\<close>

theorem buildTree_limit_single_ellipsis:
  assumes "maxDepth opts = Some d" and "d \<le> 0"
  shows "buildTree colorize (item # rest) opts =
           [case item of
              TreeString s \<Rightarrow> ellipsis_line opts
            | TreeItemObject t ch c \<Rightarrow>
                (case c of
                   None \<Rightarrow> ellipsis_line opts
                 | Some n \<Rightarrow> if n \<noteq> [] then colorize n (ellipsis_line opts)
                            else ellipsis_line opts)]"
  using assms
  by (simp add: buildTree_def isLimit_def limit_chunk_def truthy_name_def
           split: TreeItem.split option.split)

theorem buildTree_limit_single_ellipsis_witness:
  "buildTree (\<lambda>n s. ascii n @ s)
     [TreeItemObject (ascii ''a'') (Some [TreeString (ascii ''b'')]) (Some ''red''),
      TreeString (ascii ''c''), TreeString (ascii ''d'')]
     \<lparr>opt_color = None, opt_prefix = Some [32, 32], maxDepth = Some 0,
      ellipsis = Some (ascii ''...'')\<rparr>
   = [ascii ''red  ...'' @ [10]]"
  using buildTree_limit_single_ellipsis
    [of "\<lparr>opt_color = None, opt_prefix = Some [32, 32], maxDepth = Some 0,
          ellipsis = Some (ascii ''...'')\<rparr>" 0 "\<lambda>n s. ascii n @ s"
        "TreeItemObject (ascii ''a'') (Some [TreeString (ascii ''b'')]) (Some ''red'')"
        "[TreeString (ascii ''c''), TreeString (ascii ''d'')]"]
  by (simp add: ellipsis_line_def tmpl_def ascii_def nl_def)

section \<open>Results on box drawing\<close>

lemma concat_replicate_empty: "concat (replicate n ([] :: 'a list)) = []"
  by (induction n) simp_all

lemma bind_Inr_iff: "bind m f = Inr y \<longleftrightarrow> (\<exists>x. m = Inr x \<and> f x = Inr y)"
  by (cases m) (simp_all add: bind_def)

text \<open>
  Whatever positive numbers \<open>marginTop\<close> and \<open>marginBottom\<close> are, a box that is drawn
  starts with one empty line and ends with one empty line: the lines between them are
  the top border, the content rows and the bottom border.
\<close>

lemma boxLines_margins_one_line_each:
  assumes "boxLines getColor stripAnsi txt opts = Inr ls"
    and "marginTop (merged_style (style opts)) > 0"
    and "marginBottom (merged_style (style opts)) > 0"
  shows "\<exists>top rows bottom. ls = [[]] @ [top] @ rows @ [bottom] @ [[]] \<and>
           top_border (getColor (borderColor (merged_style (style opts)))) stripAnsi opts
             (merged_style (style opts))
             (color_border (getColor (borderColor (merged_style (style opts))))
                (resolve_border (borderStyle (merged_style (style opts)))))
             (maximum (map (\<lambda>line. int (length (stripAnsi line))) (split_nl txt))
                + paddingOffset (merged_style (style opts))) = Inr top"
  using assms
  by (auto simp add: boxLines_def Let_def bind_Inr_iff concat_replicate_empty)

text \<open>
  C7 (the code departs from it). With \<open>marginTop = 2\<close>, \<open>marginBottom = 2\<close> and
  \<open>marginLeft = 1\<close>, colours off, the box around \<open>Hi\<close> has one empty line before the top
  border and one after the bottom border, not two: the margin lines are built by
  \<open>"".repeat(margin)\<close>, which is the empty string for every count.
\<close>

theorem box_margin_two_gives_one_blank_line:
  "boxLines (\<lambda>c s. s) (\<lambda>s. s) (ascii ''Hi'')
     \<lparr>title = None,
      style = \<lparr>borderColor_opt = None, borderStyle_opt = None, valign_opt = None,
                padding_opt = None, marginLeft_opt = Some 1, marginTop_opt = Some 2,
                marginBottom_opt = Some 2\<rparr>\<rparr>
   = Inr [[],
          [32, 0x256D, 0x2500, 0x2500, 0x2500, 0x2500, 0x2500, 0x2500, 0x256E],
          [32, 0x2502, 32, 32, 32, 32, 32, 32, 0x2502],
          [32, 0x2502, 32, 32, 72, 105, 32, 32, 0x2502],
          [32, 0x2502, 32, 32, 32, 32, 32, 32, 0x2502],
          [32, 0x2570, 0x2500, 0x2500, 0x2500, 0x2500, 0x2500, 0x2500, 0x256F],
          []]"
  by code_simp

section \<open>Evaluation of the engine on concrete inputs\<close>

text \<open>
  The continuation of \<open>bind\<close> is only looked at once the first computation has a value.
\<close>

lemma bind_weak_cong [cong]: "m = m' \<Longrightarrow> bind m f = bind m' f"
  by simp

lemma bind_Inr [simp]: "bind (Inr x) f = f x"
  by (simp add: bind_def)

lemma bind_Inl [simp]: "bind (Inl e) f = Inl e"
  by (simp add: bind_def)

lemma bind_result: "bind m (\<lambda>x. Inr (f x)) = Inr y \<Longrightarrow> \<exists>x. m = Inr x \<and> f x = y"
  by (cases m) simp_all

lemmas engine_defs =
  dispatch_def wrapLogFn_def logFn_at_def logFn_def exceeds_def site_level_def getp_def put_def del_def
  assign_def buildLogObj_def baseLogObj_def placeArgs_def treatedAsRecord_def isLogObj_def
  sharesDefaultArgs_def applyMessage_def applyAdditional_def additional_lines_def normalizeTypeTag_def
  toLowerCase_def lower_char_def upper_chars_def lower_chars_def throttled_def diffTime_def
  fingerprint_def resolveLog_def flushPending_def log_to_reporters_def count_or_0_def repeated_note_def
  show_int_def plain_instance_def start_world_def pauseLogs_def resumeLogs_def emptyLog_def LogTypes_def
  site_defaults_def shown_args_def level_of_kind_def Let_def

text \<open>The plain instance is what the constructor builds from a list of reporters alone.\<close>

lemma plain_instance_is_constructed:
  "new_Consola \<lparr>reporters_opt = Some rs, types_opt = None, level_opt = JUndefined,
                 defaults_opt = None, throttle_opt = None, throttleMin_opt = None\<rparr>
     = Inr (plain_instance rs)"
  by (simp add: new_Consola_def plain_instance_def or_default_def Let_def)

section \<open>Results on the structural detection\<close>

lemma isLogObj_plain:
  "isLogObj (JObj ps) \<longleftrightarrow>
     (truthy (getp ps ''message'') \<or> truthy (getp ps ''args'')) \<and> \<not> truthy (getp ps ''stack'')"
  by (auto simp add: isLogObj_def)

lemma treatedAsRecord_single:
  "treatedAsRecord isRaw [v] \<longleftrightarrow> \<not> isRaw \<and> isLogObj v"
  by (simp add: treatedAsRecord_def)

text \<open>
  C6, as stated, fails: a plain object that contains a \<open>message\<close> field and no \<open>stack\<close>
  field is not always merged. The object \<open>{message: ""}\<close> is kept as a literal argument.
\<close>

theorem record_detection_presence_counterexample:
  "\<not> (\<forall>ps lo. (map_of ps ''message'' \<noteq> None \<or> map_of ps ''args'' \<noteq> None) \<and> map_of ps ''stack'' = None
         \<longrightarrow> placeArgs False [JObj ps] lo = assign lo ps)"
proof
  assume a: "\<forall>ps lo. (map_of ps ''message'' \<noteq> None \<or> map_of ps ''args'' \<noteq> None) \<and> map_of ps ''stack'' = None
         \<longrightarrow> placeArgs False [JObj ps] lo = assign lo ps"
  have "placeArgs False [JObj [(''message'', JStr [])]] [] = assign [] [(''message'', JStr [])]"
    using a by simp
  then show False
    by (simp add: placeArgs_def treatedAsRecord_def isLogObj_def getp_def assign_def put_def)
qed

text \<open>
  C6, amended. For a non-raw dispatch of a single plain object: if its \<open>message\<close> or its
  \<open>args\<close> is truthy and its \<open>stack\<close> is not truthy (missing, or present with a falsy
  value), the object is merged into the record by \<open>Object.assign\<close>; if its \<open>stack\<close> is
  truthy, the object is the single positional argument of the record; and so it is if
  its \<open>message\<close> and its \<open>args\<close> are both falsy.
\<close>

theorem record_detection_by_truthiness:
  "((truthy (getp ps ''message'') \<or> truthy (getp ps ''args'')) \<and> \<not> truthy (getp ps ''stack'')
      \<longrightarrow> placeArgs False [JObj ps] lo = assign lo ps)
   \<and> (truthy (getp ps ''stack'') \<longrightarrow> placeArgs False [JObj ps] lo = put lo ''args'' (JArr [JObj ps]))
   \<and> (\<not> truthy (getp ps ''message'') \<and> \<not> truthy (getp ps ''args'')
        \<longrightarrow> placeArgs False [JObj ps] lo = put lo ''args'' (JArr [JObj ps]))"
  by (simp add: placeArgs_def treatedAsRecord_single isLogObj_plain)

theorem record_detection_by_truthiness_witness:
  "placeArgs False [JObj [(''message'', JStr ''hi'')]] [(''args'', JArr [])]
     = [(''args'', JArr []), (''message'', JStr ''hi'')]
   \<and> placeArgs False [JObj [(''message'', JStr ''hi''), (''stack'', JStr ''at f'')]] [(''args'', JArr [])]
     = [(''args'', JArr [JObj [(''message'', JStr ''hi''), (''stack'', JStr ''at f'')]])]
   \<and> placeArgs False [JObj [(''message'', JStr [])]] [(''args'', JArr [])]
     = [(''args'', JArr [JObj [(''message'', JStr [])]])]"
  using record_detection_by_truthiness [of "[(''message'', JStr ''hi'')]" "[(''args'', JArr [])]"]
    record_detection_by_truthiness
      [of "[(''message'', JStr ''hi''), (''stack'', JStr ''at f'')]" "[(''args'', JArr [])]"]
    record_detection_by_truthiness [of "[(''message'', JStr [])]" "[(''args'', JArr [])]"]
  by (simp add: getp_def assign_def put_def)

text \<open>
  C8. The detection tests truthiness, not presence. A plain object whose \<open>message\<close> is
  falsy (the empty string, for one) and which has no \<open>args\<close> field is not merged: it is
  the single positional argument. A plain object with a truthy \<open>message\<close> or \<open>args\<close>
  whose \<open>stack\<close> field is present with a falsy value is merged as a record.
\<close>

theorem detection_tests_truthiness:
  "(\<not> truthy (getp ps ''message'') \<and> map_of ps ''args'' = None
      \<longrightarrow> \<not> isLogObj (JObj ps) \<and> placeArgs False [JObj ps] lo = put lo ''args'' (JArr [JObj ps]))
   \<and> ((truthy (getp ps ''message'') \<or> truthy (getp ps ''args''))
        \<and> map_of ps ''stack'' = Some v \<and> \<not> truthy v
      \<longrightarrow> isLogObj (JObj ps) \<and> placeArgs False [JObj ps] lo = assign lo ps)"
  by (auto simp add: placeArgs_def treatedAsRecord_single isLogObj_plain getp_def)

theorem detection_tests_truthiness_witness:
  "placeArgs False [JObj [(''message'', JStr [])]] [(''args'', JArr [])]
     = [(''args'', JArr [JObj [(''message'', JStr [])]])]
   \<and> placeArgs False [JObj [(''message'', JStr ''hi''), (''stack'', JStr [])]] [(''args'', JArr [])]
     = [(''args'', JArr []), (''message'', JStr ''hi''), (''stack'', JStr [])]"
  using detection_tests_truthiness [of "[(''message'', JStr [])]" "[(''args'', JArr [])]"]
    detection_tests_truthiness
      [of "[(''message'', JStr ''hi''), (''stack'', JStr [])]" "[(''args'', JArr [])]" "JStr []"]
  by (simp add: getp_def assign_def put_def)

section \<open>Results on pause and resume\<close>

lemma logFn_at_keeps_queue:
  assumes "logFn_at i d args isRaw now w = Inr w'"
  shows "queue w' = queue w \<and> paused w' = paused w"
  using assms by (auto simp add: logFn_at_def bind_Inr_iff)

lemma resume_loop_keeps_queue:
  "resume_loop clock k items w = Inr w' \<Longrightarrow> queue w' = queue w \<and> paused w' = paused w"
proof (induction items arbitrary: k w)
  case Nil
  then show ?case by simp
next
  case (Cons item items)
  obtain i d args isRaw where item: "item = (i, d, args, isRaw)"
    by (cases item) auto
  from Cons.prems item obtain w1 where
    s1: "logFn_at i d args False (clock k) w = Inr w1" and
    s2: "resume_loop clock (Suc k) items w1 = Inr w'"
    by (auto simp add: bind_Inr_iff)
  from Cons.IH [OF s2] logFn_at_keeps_queue [OF s1] show ?case by simp
qed

lemma dispatch_all_paused:
  "paused w \<Longrightarrow> dispatch_all calls w = Inr (w\<lparr>queue := queue w @ map fst calls\<rparr>)"
proof (induction calls arbitrary: w)
  case Nil
  then show ?case by simp
next
  case (Cons call calls)
  obtain i d args isRaw now where call: "call = ((i, d, args, isRaw), now)"
    by (cases call) auto
  have "dispatch_all (call # calls) w = dispatch_all calls (w\<lparr>queue := queue w @ [(i, d, args, isRaw)]\<rparr>)"
    using Cons.prems call by (simp add: wrapLogFn_def)
  also have "\<dots> = Inr (w\<lparr>queue := queue w @ [(i, d, args, isRaw)]\<rparr>
                      \<lparr>queue := queue (w\<lparr>queue := queue w @ [(i, d, args, isRaw)]\<rparr>) @ map fst calls\<rparr>)"
    using Cons.prems by (intro Cons.IH) simp
  finally show ?case using call by simp
qed

lemma resume_loop_replay:
  "resume_loop clock k items w = replay_in_order clock (zip [k ..< k + length items] items) w"
proof (induction items arbitrary: k w)
  case Nil
  then show ?case by simp
next
  case (Cons item items)
  obtain i d args isRaw where item: "item = (i, d, args, isRaw)"
    by (cases item) auto
  have upt: "[k ..< k + length (item # items)] = k # [Suc k ..< Suc k + length items]"
    by (subst upt_rec) simp
  have ih: "resume_loop clock (Suc k) items
              = replay_in_order clock (zip [Suc k ..< Suc k + length items] items)"
    by (rule ext) (rule Cons.IH)
  have "resume_loop clock k (item # items) w
          = bind (logFn_at i d args False (clock k) w)
              (\<lambda>w'. replay_in_order clock (zip [Suc k ..< Suc k + length items] items) w')"
    by (simp only: item resume_loop.simps ih)
  also have "\<dots> = replay_in_order clock (zip (k # [Suc k ..< Suc k + length items]) (item # items)) w"
    by (simp only: item zip_Cons_Cons replay_in_order.simps)
  finally show ?case by (simp only: upt)
qed

text \<open>
  C4. Let logging be paused. After any sequence of call-site invocations, from any
  instances, \<open>resumeLogs\<close> is the same computation as handing the items queued before
  and the invocations made, in their order and each once, to \<open>_logFn\<close> with the pause
  flag off and the queue empty; and when it returns, the queue is empty and logging is
  no longer paused.
\<close>

theorem resume_drains_queue_in_order:
  assumes "paused w"
  shows "bind (dispatch_all calls w) (resumeLogs clock)
           = replay_in_order clock
               (zip [0 ..< length (queue w) + length calls] (queue w @ map fst calls))
               (w\<lparr>paused := False, queue := []\<rparr>)
         \<and> (\<forall>w'. bind (dispatch_all calls w) (resumeLogs clock) = Inr w'
                 \<longrightarrow> queue w' = [] \<and> \<not> paused w')"
proof -
  have run: "bind (dispatch_all calls w) (resumeLogs clock)
               = resume_loop clock 0 (queue w @ map fst calls) (w\<lparr>paused := False, queue := []\<rparr>)"
    using assms by (simp add: dispatch_all_paused resumeLogs_def)
  have a: "bind (dispatch_all calls w) (resumeLogs clock)
           = replay_in_order clock
               (zip [0 ..< length (queue w) + length calls] (queue w @ map fst calls))
               (w\<lparr>paused := False, queue := []\<rparr>)"
    using run resume_loop_replay [of clock 0 "queue w @ map fst calls"] by simp
  have b: "queue w' = [] \<and> \<not> paused w'"
    if "bind (dispatch_all calls w) (resumeLogs clock) = Inr w'" for w'
    using that run resume_loop_keeps_queue [of clock 0 "queue w @ map fst calls" _ w'] by simp
  from a b show ?thesis by blast
qed

text \<open>
  Three records, dispatched at two instances while paused, reach the reporters in the
  order of their dispatch when logging resumes.
\<close>

theorem resume_drains_queue_in_order_witness:
  "\<exists>w'. bind (dispatch_all
                [((0, [(''type'', JStr ''info'')], [JStr ''a''], False), 1),
                 ((1, [(''type'', JStr ''warn'')], [JStr ''b''], False), 2),
                 ((0, [(''type'', JStr ''info'')], [JStr ''c''], False), 3)]
                (pauseLogs ((start_world (plain_instance [7]))
                   \<lparr>insts := (\<lambda>i. plain_instance [7])(1 := plain_instance [8])\<rparr>)))
              (resumeLogs (\<lambda>k. 10)) = Inr w'
        \<and> queue w' = [] \<and> \<not> paused w'
        \<and> shown_args w' = [(7, JArr [JStr ''a'']), (8, JArr [JStr ''b'']), (7, JArr [JStr ''c''])]"
proof -
  let ?calls = "[((0, [(''type'', JStr ''info'')], [JStr ''a''], False), 1),
                 ((1, [(''type'', JStr ''warn'')], [JStr ''b''], False), 2),
                 ((0::nat, [(''type'', JStr ''info'')], [JStr ''c''], False), 3::int)]"
  let ?w = "pauseLogs ((start_world (plain_instance [7]))
                   \<lparr>insts := (\<lambda>i. plain_instance [7])(1 := plain_instance [8])\<rparr>)"
  have ev: "bind (bind (dispatch_all ?calls ?w) (resumeLogs (\<lambda>k. 10))) (\<lambda>w'. Inr (shown_args w'))
              = Inr [(7, JArr [JStr ''a'']), (8, JArr [JStr ''b'']), (7, JArr [JStr ''c''])]"
    by (simp add: engine_defs)
  from bind_result [OF ev] obtain w' where r: "bind (dispatch_all ?calls ?w) (resumeLogs (\<lambda>k. 10)) = Inr w'"
    and s: "shown_args w' = [(7, JArr [JStr ''a'']), (8, JArr [JStr ''b'']), (7, JArr [JStr ''c''])]"
    by blast
  have p: "paused ?w"
    by (simp add: pauseLogs_def)
  note resume_drains_queue_in_order [OF p, THEN conjunct2, rule_format, OF r]
  with r s show ?thesis by blast
qed

text \<open>
  The loop of \<open>resumeLogs\<close> calls \<open>_logFn\<close> without the fourth element of the queued
  item: a dispatch queued by a raw call-site is replayed as a non-raw one.
\<close>

lemma resume_replays_without_raw_flag:
  "resumeLogs clock (w\<lparr>paused := True, queue := [(i, d, args, True)]\<rparr>)
     = logFn_at i d args False (clock 0) (w\<lparr>paused := False, queue := []\<rparr>)"
  by (simp add: resumeLogs_def bind_def split: sum.split)

text \<open>
  C3 (the code departs from it). \<open>instance.info.raw({message: "hi"})\<close> while paused
  puts an item with the raw flag on the queue; at resume the reporter receives a record
  with the arguments \<open>["hi"]\<close>: the object was merged as a record. The same call made
  while not paused hands the reporter the arguments \<open>[{message: "hi"}]\<close>.
\<close>

theorem raw_flag_lost_at_replay:
  "bind (dispatch 0 ''info'' True [JObj [(''message'', JStr ''hi'')]] 5
           (pauseLogs (start_world (plain_instance [0]))))
     (\<lambda>w1. bind (resumeLogs (\<lambda>k. 7) w1) (\<lambda>w2. Inr (map (\<lambda>(i, d, args, isRaw). isRaw) (queue w1), shown_args w2)))
     = Inr ([True], [(0, JArr [JStr ''hi''])])
   \<and> bind (dispatch 0 ''info'' True [JObj [(''message'', JStr ''hi'')]] 5
             (start_world (plain_instance [0])))
       (\<lambda>w2. Inr (shown_args w2))
     = Inr [(0, JArr [JObj [(''message'', JStr ''hi'')]])]"
  by (simp add: engine_defs)

section \<open>Results on the severity filter\<close>

lemma num_less_NegInf [simp]: "num_less NegInf s \<longleftrightarrow> s \<noteq> NegInf"
  by (cases s) simp_all

lemma num_less_PosInf [simp]: "\<not> num_less PosInf s"
  by (cases s) simp_all

lemma logFn_filter:
  assumes "site_level d = JNum s" and "level (options c) = JNum t"
  shows "logFn c d args isRaw now =
           (if num_less t s then Inr (c, [], JBool False)
            else bind (buildLogObj c d args isRaw now) (\<lambda>lo.
                 bind (throttled c lo now) (\<lambda>(c', out). Inr (c', out, JUndefined))))"
  using assms by (simp add: logFn_def exceeds_def)

text \<open>A dropped dispatch leaves the whole module state as it was.\<close>

lemma dropped_dispatch_changes_nothing:
  assumes "site_level d = JNum s" and "level (options (insts w i)) = JNum t" and "num_less t s"
  shows "logFn_at i d args isRaw now w = Inr w"
  using assms by (simp add: logFn_at_def logFn_filter)

text \<open>
  The severity test through the call-site of a kind whose defaults carry a number as
  their level: the dispatch changes nothing, or it goes on to build the record.
\<close>

lemma site_level_numeric: "getp d ''level'' = JNum s \<Longrightarrow> site_level d = JNum s"
  by (cases s) (auto simp add: site_level_def)

lemma admitted_dispatch_proceeds:
  assumes "site_level d = JNum s" and "level (options (insts w i)) = JNum t" and "\<not> num_less t s"
  shows "logFn_at i d args isRaw now w =
           bind (buildLogObj (insts w i) d args isRaw now) (\<lambda>lo.
           bind (throttled (insts w i) lo now) (\<lambda>(c', out).
           Inr (w\<lparr>insts := (insts w)(i := c'), rendered := rendered w @ out\<rparr>)))"
proof (cases "buildLogObj (insts w i) d args isRaw now")
  case (Inl e)
  with assms show ?thesis by (simp add: logFn_at_def logFn_filter)
next
  case (Inr lo)
  with assms show ?thesis
    by (cases "throttled (insts w i) lo now") (auto simp add: logFn_at_def logFn_filter)
qed

text \<open>
  C2, as stated, fails at four inputs. (1) Threshold negative infinity, a kind
  \<open>quiet\<close> configured with level negative infinity: the record reaches the reporter.
  (2) Threshold 1, a kind \<open>note\<close> configured without a level: the record reaches the
  reporter, and it carries the resolved severity 3. (3) Threshold 3, the call
  \<open>info({message: "x", level: 5})\<close>: the record reaches the reporter with severity 5.
  (4) Threshold 3, logging paused, \<open>debug("x")\<close>: the call is not dropped but queued, and
  after the threshold is set to 4 the record reaches the reporter at resume.
\<close>

theorem severity_claim_counterexample:
  "bind (new_Consola \<lparr>reporters_opt = Some [0], types_opt = Some [(''quiet'', [(''level'', JNum NegInf)])],
                      level_opt = JNum NegInf, defaults_opt = None, throttle_opt = None,
                      throttleMin_opt = None\<rparr>)
     (\<lambda>c. bind (dispatch 0 ''quiet'' False [JStr ''x''] 0 (start_world c)) (\<lambda>w. Inr (shown_levels w)))
     = Inr [(0, JNum NegInf, JArr [JStr ''x''])]
   \<and> bind (new_Consola \<lparr>reporters_opt = Some [0], types_opt = Some [(''note'', [])],
                        level_opt = JNum (Fin 1), defaults_opt = None, throttle_opt = None,
                        throttleMin_opt = None\<rparr>)
       (\<lambda>c. bind (dispatch 0 ''note'' False [JStr ''x''] 0 (start_world c)) (\<lambda>w. Inr (shown_levels w)))
     = Inr [(0, JNum (Fin 3), JArr [JStr ''x''])]
   \<and> bind (dispatch 0 ''info'' False [JObj [(''message'', JStr ''x''), (''level'', JNum (Fin 5))]] 0
             (start_world (plain_instance [0])))
       (\<lambda>w. Inr (shown_levels w))
     = Inr [(0, JNum (Fin 5), JArr [JStr ''x''])]
   \<and> bind (dispatch 0 ''debug'' False [JStr ''x''] 0 (pauseLogs (start_world (plain_instance [0]))))
       (\<lambda>w1. bind (setLevel_at 0 (JNum (Fin 4)) w1)
       (\<lambda>w2. bind (resumeLogs (\<lambda>k. 1) w2)
       (\<lambda>w3. Inr (length (queue w1), shown_levels w1, shown_levels w3))))
     = Inr (1, [], [(0, JNum (Fin 4), JArr [JStr ''x''])])"
  by (simp add: engine_defs new_Consola_def or_default_def defu_types_def defu_entry_def
        setLevel_at_def setLevel_def shown_levels_def)

text \<open>
  C2, amended. For every instance with a numeric threshold and every kind whose
  defaults carry a number \<open>s\<close> as their level (\<open>s\<close> is then the resolved severity of the
  kind): when logging is not paused, a dispatch with \<open>s\<close> greater than the threshold is
  dropped at once, with no reporter call and no change of any state, and a dispatch
  with \<open>s\<close> not greater goes on to record building, duplicate suppression and
  rendering; when logging is paused, the dispatch is queued, and the same test is made
  when the queue is replayed, with the threshold of that moment. With the threshold at
  negative infinity every such dispatch is dropped unless \<open>s\<close> is negative infinity
  itself; with the threshold at positive infinity every such dispatch is admitted.
\<close>

theorem severity_filter:
  assumes "map_of (sites (insts w i)) kind = Some d"
    and "getp d ''level'' = JNum s"
    and "level (options (insts w i)) = JNum t"
  shows "normalizeLogLevel (getp d ''level'') (types (options (insts w i))) (JNum (Fin 3)) = Inr (JNum s)
       \<and> (\<not> paused w \<and> num_less t s \<longrightarrow> dispatch i kind isRaw args now w = Inr w)
       \<and> (\<not> paused w \<and> \<not> num_less t s \<longrightarrow>
            dispatch i kind isRaw args now w =
              bind (buildLogObj (insts w i) d args isRaw now) (\<lambda>lo.
              bind (throttled (insts w i) lo now) (\<lambda>(c', out).
              Inr (w\<lparr>insts := (insts w)(i := c'), rendered := rendered w @ out\<rparr>))))
       \<and> (paused w \<longrightarrow>
            dispatch i kind isRaw args now w = Inr (w\<lparr>queue := queue w @ [(i, d, args, isRaw)]\<rparr>))
       \<and> (num_less t s \<longrightarrow> resume_loop clock k [(i, d, args, isRaw)] w = Inr w)
       \<and> (\<not> num_less t s \<longrightarrow>
            resume_loop clock k [(i, d, args, isRaw)] w =
              bind (buildLogObj (insts w i) d args False (clock k)) (\<lambda>lo.
              bind (throttled (insts w i) lo (clock k)) (\<lambda>(c', out).
              Inr (w\<lparr>insts := (insts w)(i := c'), rendered := rendered w @ out\<rparr>))))
       \<and> (\<not> paused w \<and> t = NegInf \<and> s \<noteq> NegInf \<longrightarrow> dispatch i kind isRaw args now w = Inr w)
       \<and> (\<not> paused w \<and> t = PosInf \<longrightarrow>
            dispatch i kind isRaw args now w =
              bind (buildLogObj (insts w i) d args isRaw now) (\<lambda>lo.
              bind (throttled (insts w i) lo now) (\<lambda>(c', out).
              Inr (w\<lparr>insts := (insts w)(i := c'), rendered := rendered w @ out\<rparr>))))"
proof -
  note sl = site_level_numeric [OF assms(2)]
  have n: "normalizeLogLevel (getp d ''level'') (types (options (insts w i))) (JNum (Fin 3)) = Inr (JNum s)"
    by (simp add: assms(2))
  have d: "dispatch i kind isRaw args now w = wrapLogFn i d isRaw args now w"
    by (simp add: dispatch_def assms(1))
  have drop: "logFn_at i d args r u w = Inr w" if "num_less t s" for r u
    using dropped_dispatch_changes_nothing [OF sl assms(3) that] .
  have go: "logFn_at i d args r u w =
              bind (buildLogObj (insts w i) d args r u) (\<lambda>lo.
              bind (throttled (insts w i) lo u) (\<lambda>(c', out).
              Inr (w\<lparr>insts := (insts w)(i := c'), rendered := rendered w @ out\<rparr>)))"
    if "\<not> num_less t s" for r u
    using admitted_dispatch_proceeds [OF sl assms(3) that] .
  have loop: "resume_loop clock k [(i, d, args, isRaw)] w = logFn_at i d args False (clock k) w"
    by (cases "logFn_at i d args False (clock k) w") simp_all
  have p1: "\<not> paused w \<and> num_less t s \<longrightarrow> dispatch i kind isRaw args now w = Inr w"
    using drop by (simp add: d wrapLogFn_def)
  have p2: "\<not> paused w \<and> \<not> num_less t s \<longrightarrow>
            dispatch i kind isRaw args now w =
              bind (buildLogObj (insts w i) d args isRaw now) (\<lambda>lo.
              bind (throttled (insts w i) lo now) (\<lambda>(c', out).
              Inr (w\<lparr>insts := (insts w)(i := c'), rendered := rendered w @ out\<rparr>)))"
    using go [of isRaw now] by (simp add: d wrapLogFn_def)
  have p3: "paused w \<longrightarrow>
            dispatch i kind isRaw args now w = Inr (w\<lparr>queue := queue w @ [(i, d, args, isRaw)]\<rparr>)"
    by (simp add: d wrapLogFn_def)
  have p4: "num_less t s \<longrightarrow> resume_loop clock k [(i, d, args, isRaw)] w = Inr w"
    using drop by (simp only: loop) simp
  have p5: "\<not> num_less t s \<longrightarrow>
            resume_loop clock k [(i, d, args, isRaw)] w =
              bind (buildLogObj (insts w i) d args False (clock k)) (\<lambda>lo.
              bind (throttled (insts w i) lo (clock k)) (\<lambda>(c', out).
              Inr (w\<lparr>insts := (insts w)(i := c'), rendered := rendered w @ out\<rparr>)))"
    using go [of False "clock k"] by (simp only: loop) simp
  have p6: "\<not> paused w \<and> t = NegInf \<and> s \<noteq> NegInf \<longrightarrow> dispatch i kind isRaw args now w = Inr w"
    using p1 by simp
  have p7: "\<not> paused w \<and> t = PosInf \<longrightarrow>
            dispatch i kind isRaw args now w =
              bind (buildLogObj (insts w i) d args isRaw now) (\<lambda>lo.
              bind (throttled (insts w i) lo now) (\<lambda>(c', out).
              Inr (w\<lparr>insts := (insts w)(i := c'), rendered := rendered w @ out\<rparr>)))"
    using p2 by simp
  from n p1 p2 p3 p4 p5 p6 p7 show ?thesis by blast
qed

theorem severity_filter_witness:
  "dispatch 0 ''debug'' False [JStr ''x''] 0 (start_world (plain_instance [0]))
     = Inr (start_world (plain_instance [0]))
   \<and> dispatch 0 ''fatal'' False [JStr ''x''] 0
       (start_world ((plain_instance [0])\<lparr>options := (options (plain_instance [0]))\<lparr>level := JNum NegInf\<rparr>\<rparr>))
     = Inr (start_world ((plain_instance [0])\<lparr>options := (options (plain_instance [0]))\<lparr>level := JNum NegInf\<rparr>\<rparr>))
   \<and> resume_loop (\<lambda>k. 0) 0 [(0, [(''type'', JStr ''debug''), (''level'', JNum (Fin 4))], [JStr ''x''], False)]
       (start_world (plain_instance [0]))
     = Inr (start_world (plain_instance [0]))
   \<and> bind (dispatch 0 ''verbose'' False [JStr ''x''] 0
             (start_world ((plain_instance [0])\<lparr>options := (options (plain_instance [0]))\<lparr>level := JNum PosInf\<rparr>\<rparr>)))
        (\<lambda>w. Inr (shown_levels w)) = Inr [(0, JNum PosInf, JArr [JStr ''x''])]"
proof -
  let ?c = "plain_instance [0]"
  let ?s = "?c\<lparr>options := (options ?c)\<lparr>level := JNum NegInf\<rparr>\<rparr>"
  let ?v = "?c\<lparr>options := (options ?c)\<lparr>level := JNum PosInf\<rparr>\<rparr>"
  let ?dbg = "[(''type'', JStr ''debug''), (''level'', JNum (Fin 4))]"
  let ?fat = "[(''type'', JStr ''fatal''), (''level'', JNum (Fin 0))]"
  have sd: "map_of (sites (insts (start_world ?c) 0)) ''debug'' = Some ?dbg"
    and sf: "map_of (sites (insts (start_world ?s) 0)) ''fatal'' = Some ?fat"
    by (simp_all add: start_world_def plain_instance_def LogTypes_def site_defaults_def assign_def put_def)
  have ld: "getp ?dbg ''level'' = JNum (Fin 4)" and lf: "getp ?fat ''level'' = JNum (Fin 0)"
    by (simp_all add: getp_def)
  have tc: "level (options (insts (start_world ?c) 0)) = JNum (Fin 3)"
    and ts: "level (options (insts (start_world ?s) 0)) = JNum NegInf"
    by (simp_all add: start_world_def plain_instance_def)
  have np: "\<not> paused (start_world ?c)" "\<not> paused (start_world ?s)"
    by (simp_all add: start_world_def)
  note a = severity_filter [OF sd ld tc, of False "[JStr ''x'']" 0 "\<lambda>k. 0" 0]
  note b = severity_filter [OF sf lf ts, of False "[JStr ''x'']" 0 "\<lambda>k. 0" 0]
  have 1: "dispatch 0 ''debug'' False [JStr ''x''] 0 (start_world ?c) = Inr (start_world ?c)"
    using a np by simp
  have 2: "dispatch 0 ''fatal'' False [JStr ''x''] 0 (start_world ?s) = Inr (start_world ?s)"
    using b np by simp
  have 3: "resume_loop (\<lambda>k. 0) 0 [(0, ?dbg, [JStr ''x''], False)] (start_world ?c) = Inr (start_world ?c)"
    using a by simp
  have 4: "bind (dispatch 0 ''verbose'' False [JStr ''x''] 0 (start_world ?v))
             (\<lambda>w. Inr (shown_levels w)) = Inr [(0, JNum PosInf, JArr [JStr ''x''])]"
    by (simp add: engine_defs shown_levels_def)
  from 1 2 3 4 show ?thesis by blast
qed

section \<open>Results on property lists\<close>

lemma getp_put: "getp (put ob k v) k' = (if k' = k then v else getp ob k')"
  by (simp add: getp_def put_def update_conv')

lemma getp_del: "getp (del ob k) k' = (if k' = k then JUndefined else getp ob k')"
  by (simp add: getp_def del_def delete_conv')

lemma map_of_foldl_update:
  "distinct (map fst xs) \<Longrightarrow>
     map_of (foldl (\<lambda>acc (k, v). AList.update k v acc) a xs) = map_of a ++ map_of xs"
proof (induction xs arbitrary: a)
  case Nil
  then show ?case by simp
next
  case (Cons x xs)
  obtain k v where x: "x = (k, v)" by (cases x)
  from Cons.prems x have notin: "map_of xs k = None" and d: "distinct (map fst xs)"
    by (auto simp add: map_of_eq_None_iff)
  have "map_of (foldl (\<lambda>acc (k, v). AList.update k v acc) a (x # xs))
          = map_of (AList.update k v a) ++ map_of xs"
    using Cons.IH [OF d] x by simp
  also have "\<dots> = (map_of a ++ map_of xs)(k \<mapsto> v)"
    using notin by (auto simp add: update_conv' map_add_def fun_eq_iff split: option.splits)
  also have "\<dots> = map_of a ++ map_of (x # xs)"
    using x by simp
  finally show ?case .
qed

lemma map_of_assign: "map_of (assign a b) = map_of a ++ map_of b"
proof -
  have "map_of (assign a b) = map_of a ++ map_of (AList.clearjunk b)"
    unfolding assign_def put_def by (rule map_of_foldl_update) (rule distinct_clearjunk)
  then show ?thesis by (simp add: map_of_clearjunk)
qed

lemma getp_assign:
  "getp (assign a b) k = (case map_of b k of None \<Rightarrow> getp a k | Some v \<Rightarrow> v)"
  by (simp add: getp_def map_of_assign map_add_def split: option.splits)

lemma map_of_sites:
  "map_of (map (\<lambda>(ty, td). (ty, f ty td)) tys) ty = map_option (f ty) (map_of tys ty)"
  by (induction tys) auto

section \<open>Results on tags\<close>

lemma withDefaults_numeric_level:
  assumes "level (options c) = JNum l"
  shows "withDefaults c ds =
           Inr \<lparr>options = \<lparr>reporters = reporters (options c),
                            types = defu_types (types (options c)),
                            level = JNum l,
                            defaults = assign (defaults (options c)) ds,
                            throttle = throttle (options c),
                            throttleMin = throttleMin (options c)\<rparr>,
                sites = map (\<lambda>(ty, td). (ty, site_defaults (assign (defaults (options c)) ds) ty td))
                          (types (options c)),
                lastLog = emptyLog\<rparr>"
  using assms
  by (simp add: withDefaults_def create_def overlay_def new_Consola_def or_default_def Let_def)

lemma withDefaults_tag:
  assumes "level (options c) = JNum l" and "withDefaults c [(''tag'', JStr s)] = Inr c'"
  shows "default_tag c' = JStr s"
    and "types (options c') = defu_types (types (options c))"
    and "level (options c') = JNum l"
    and "sites c' = map (\<lambda>(ty, td). (ty, site_defaults (defaults (options c')) ty td)) (types (options c))"
  using assms(2) unfolding withDefaults_numeric_level [OF assms(1)]
  by (auto simp add: default_tag_def getp_assign)

text \<open>The tag of a record built from positional arguments is the tag of the call-site defaults.\<close>

lemma applyMessage_tag:
  "applyMessage sh lo = Inr lo' \<Longrightarrow> getp lo' ''tag'' = getp lo ''tag''"
  by (auto simp add: applyMessage_def bind_Inr_iff getp_put getp_del split: if_splits)

lemma applyAdditional_tag:
  "applyAdditional sh lo = Inr lo' \<Longrightarrow> getp lo' ''tag'' = getp lo ''tag''"
  by (auto simp add: applyAdditional_def bind_Inr_iff getp_put getp_del split: if_splits)

lemma buildLogObj_tag_of_positional:
  assumes "buildLogObj c d args isRaw now = Inr lo" and "\<not> treatedAsRecord isRaw args"
  shows "getp lo ''tag'' = (case getp d ''tag'' of JStr s \<Rightarrow> JStr s | _ \<Rightarrow> JStr [])"
proof -
  from assms(1) obtain lo0 lo1 lo2 where
    b: "baseLogObj c d now = Inr lo0" and
    m: "applyMessage (sharesDefaultArgs isRaw args d) (placeArgs isRaw args lo0) = Inr lo1" and
    a: "applyAdditional (sharesDefaultArgs isRaw args d) lo1 = Inr lo2" and
    n: "lo = normalizeTypeTag lo2"
    by (auto simp add: buildLogObj_def bind_Inr_iff)
  have "getp (assign [(''date'', JDate now), (''args'', JArr [])] d) ''tag'' = getp d ''tag''"
    by (subst getp_assign) (simp add: getp_def split: option.splits)
  with b have "getp lo0 ''tag'' = getp d ''tag''"
    by (auto simp add: baseLogObj_def bind_Inr_iff getp_put)
  with assms(2) have "getp (placeArgs isRaw args lo0) ''tag'' = getp d ''tag''"
    by (simp add: placeArgs_def getp_put)
  with applyMessage_tag [OF m] applyAdditional_tag [OF a] have "getp lo2 ''tag'' = getp d ''tag''"
    by simp
  with n show ?thesis
    by (simp add: normalizeTypeTag_def getp_put)
qed

lemma site_tag:
  assumes "map_of td ''tag'' = None"
  shows "getp (site_defaults ds ty td) ''tag'' = getp ds ''tag''"
  unfolding site_defaults_def getp_assign
  by (simp add: assms getp_def split: option.splits)

text \<open>
  C9, as stated, fails for the empty tag: \<open>c.withTag("").withTag("b")\<close> has the default
  tag \<open>b\<close>, not \<open>:b\<close>.
\<close>

theorem withTag_empty_tag_counterexample:
  "\<not> (\<forall>c a b c1 c2. map_of (defaults (options c)) ''tag'' = None
          \<and> withTag c a = Inr c1 \<and> withTag c1 b = Inr c2
        \<longrightarrow> default_tag c2 = JStr (a @ '':'' @ b))"
proof
  assume h: "\<forall>c a b c1 c2. map_of (defaults (options c)) ''tag'' = None
          \<and> withTag c a = Inr c1 \<and> withTag c1 b = Inr c2
        \<longrightarrow> default_tag c2 = JStr (a @ '':'' @ b)"
  let ?c = "plain_instance []"
  have l: "level (options ?c) = JNum (Fin 3)"
    by (simp add: plain_instance_def)
  have t: "getp (defaults (options ?c)) ''tag'' = JUndefined"
    by (simp add: plain_instance_def getp_def)
  obtain c1 where c1: "withTag ?c [] = Inr c1"
    using t by (simp add: withTag_def withDefaults_numeric_level [OF l])
  have t1: "default_tag c1 = JStr []" and l1: "level (options c1) = JNum (Fin 3)"
    using c1 t withDefaults_tag [OF l, of "[]" c1] by (simp_all add: withTag_def)
  obtain c2 where c2: "withTag c1 ''b'' = Inr c2"
    using t1 by (simp add: withTag_def default_tag_def withDefaults_numeric_level [OF l1])
  have "default_tag c2 = JStr ''b''"
    using c2 t1 withDefaults_tag [OF l1, of "''b''" c2] by (simp add: withTag_def default_tag_def)
  moreover have "map_of (defaults (options ?c)) ''tag'' = None"
    by (simp add: plain_instance_def)
  with h c1 c2 have "default_tag c2 = JStr ([] @ '':'' @ ''b'')"
    by blast
  ultimately show False by simp
qed

text \<open>
  C9, amended. Let the threshold of \<open>c\<close> be a number. If \<open>c\<close> has no default tag, or an
  empty one, \<open>c.withTag(a)\<close> has the default tag \<open>a\<close>; if the default tag of \<open>c\<close> is a
  non-empty string \<open>t\<close>, \<open>c.withTag(b)\<close> has the default tag \<open>t + ":" + b\<close>; so for a
  non-empty \<open>a\<close>, \<open>c.withTag(a).withTag(b)\<close> has the default tag \<open>a:b\<close>. The records that
  the new instance builds from positional arguments, through the call-site of a kind
  that has no tag of its own, carry the default tag of the new instance.
\<close>

theorem withTag_joins_with_colon:
  assumes "level (options c) = JNum l"
  shows "(\<not> truthy (default_tag c) \<longrightarrow> (\<exists>c1. withTag c a = Inr c1 \<and> default_tag c1 = JStr a))
       \<and> (default_tag c = JStr t \<and> t \<noteq> [] \<longrightarrow>
            (\<exists>c2. withTag c b = Inr c2 \<and> default_tag c2 = JStr (t @ '':'' @ b)))
       \<and> (\<not> truthy (default_tag c) \<and> a \<noteq> [] \<longrightarrow>
            (\<exists>c1 c2. withTag c a = Inr c1 \<and> withTag c1 b = Inr c2
               \<and> default_tag c2 = JStr (a @ '':'' @ b)))
       \<and> (\<forall>x c' ty td args isRaw now lo.
             withTag c x = Inr c' \<and> map_of (types (options c)) ty = Some td
               \<and> map_of td ''tag'' = None \<and> \<not> treatedAsRecord isRaw args
           \<longrightarrow> (\<exists>d. map_of (sites c') ty = Some d
                 \<and> (buildLogObj c' d args isRaw now = Inr lo \<longrightarrow> getp lo ''tag'' = default_tag c')))"
proof -
  have step_plain: "\<exists>c1. withTag c x = Inr c1 \<and> default_tag c1 = JStr x \<and> level (options c1) = JNum l"
    if nt: "\<not> truthy (default_tag c)" for x
  proof -
    from nt have w: "withTag c x = withDefaults c [(''tag'', JStr x)]"
      by (simp add: withTag_def default_tag_def)
    obtain c1 where c1: "withDefaults c [(''tag'', JStr x)] = Inr c1"
      by (simp add: withDefaults_numeric_level [OF assms])
    with w withDefaults_tag [OF assms c1] show ?thesis by simp
  qed
  have step_tagged: "\<exists>c2. withTag c' x = Inr c2 \<and> default_tag c2 = JStr (s @ '':'' @ x)"
    if dt: "default_tag c' = JStr s" and ne: "s \<noteq> []" and lv: "level (options c') = JNum l"
    for c' s x
  proof -
    from dt ne have w: "withTag c' x = withDefaults c' [(''tag'', JStr (s @ '':'' @ x))]"
      by (simp add: withTag_def default_tag_def)
    obtain c2 where c2: "withDefaults c' [(''tag'', JStr (s @ '':'' @ x))] = Inr c2"
      by (simp add: withDefaults_numeric_level [OF lv])
    with w withDefaults_tag [OF lv c2] show ?thesis by simp
  qed
  have p1: "\<not> truthy (default_tag c) \<longrightarrow> (\<exists>c1. withTag c a = Inr c1 \<and> default_tag c1 = JStr a)"
    using step_plain [of a] by blast
  have p2: "default_tag c = JStr t \<and> t \<noteq> [] \<longrightarrow>
            (\<exists>c2. withTag c b = Inr c2 \<and> default_tag c2 = JStr (t @ '':'' @ b))"
    using step_tagged [of c t b] assms by blast
  have p3: "\<not> truthy (default_tag c) \<and> a \<noteq> [] \<longrightarrow>
            (\<exists>c1 c2. withTag c a = Inr c1 \<and> withTag c1 b = Inr c2
               \<and> default_tag c2 = JStr (a @ '':'' @ b))"
  proof
    assume h: "\<not> truthy (default_tag c) \<and> a \<noteq> []"
    with step_plain [of a] obtain c1 where
      c1: "withTag c a = Inr c1" "default_tag c1 = JStr a" "level (options c1) = JNum l"
      by blast
    from step_tagged [OF c1(2) _ c1(3), of b] h obtain c2 where
      "withTag c1 b = Inr c2" "default_tag c2 = JStr (a @ '':'' @ b)"
      by blast
    with c1 show "\<exists>c1 c2. withTag c a = Inr c1 \<and> withTag c1 b = Inr c2
               \<and> default_tag c2 = JStr (a @ '':'' @ b)"
      by blast
  qed
  have p4: "\<exists>d. map_of (sites c') ty = Some d
                 \<and> (buildLogObj c' d args isRaw now = Inr lo \<longrightarrow> getp lo ''tag'' = default_tag c')"
    if w: "withTag c x = Inr c'" and ty: "map_of (types (options c)) ty = Some td"
      and nt: "map_of td ''tag'' = None" and pos: "\<not> treatedAsRecord isRaw args"
    for x c' ty td args isRaw now lo
  proof -
    from w obtain s where wd: "withDefaults c [(''tag'', JStr s)] = Inr c'"
      by (auto simp add: withTag_def Let_def split: if_splits jsval.splits)
    note f = withDefaults_tag [OF assms wd]
    let ?d = "site_defaults (defaults (options c')) ty td"
    have site: "map_of (sites c') ty = Some ?d"
      using ty by (simp add: f(4) map_of_sites)
    have tag: "getp ?d ''tag'' = JStr s"
      using site_tag [OF nt] f(1) by (simp add: default_tag_def)
    have "getp lo ''tag'' = default_tag c'" if "buildLogObj c' ?d args isRaw now = Inr lo"
      using buildLogObj_tag_of_positional [OF that pos] tag f(1) by simp
    with site show ?thesis by blast
  qed
  from p1 p2 p3 p4 show ?thesis by blast
qed

theorem withTag_joins_with_colon_witness:
  "\<exists>c1 c2. withTag (plain_instance [0]) ''a'' = Inr c1 \<and> withTag c1 ''b'' = Inr c2
      \<and> default_tag c2 = JStr ''a:b''"
proof -
  have l: "level (options (plain_instance [0])) = JNum (Fin 3)"
    by (simp add: plain_instance_def)
  have t: "\<not> truthy (default_tag (plain_instance [0])) \<and> ''a'' \<noteq> []"
    by (simp add: plain_instance_def default_tag_def getp_def)
  from withTag_joins_with_colon [OF l, where a = "''a''" and b = "''b''"] t show ?thesis
    by simp
qed

section \<open>Results on duplicate suppression\<close>

lemma put_same: "getp ob k = v \<Longrightarrow> v \<noteq> JUndefined \<Longrightarrow> put ob k v = ob"
  by (auto simp add: getp_def put_def update_triv split: option.splits)

lemma fingerprint_dated [simp]: "fingerprint (dated lo t) = fingerprint lo"
  by (simp add: fingerprint_def dated_def getp_put)

lemma date_dated [simp]: "getp (dated lo t) ''date'' = JDate t"
  by (simp add: dated_def getp_put)

lemma args_dated [simp]: "getp (dated lo t) ''args'' = getp lo ''args''"
  by (simp add: dated_def getp_put)

text \<open>
  One dispatch inside the window, on an instance whose suppression state is written
  out: the record is rendered, it is absorbed, or it forces the flush of one repeat.
\<close>

lemma throttled_renders:
  assumes "throttle (options c) = W" and "throttleMin (options c) = M"
    and "getp lo ''date'' = JDate t" and "fingerprint lo = Inr s"
    and "tm = JUndefined \<and> 0 < W \<or> (\<exists>t0. tm = JDate t0 \<and> t - t0 < W)"
    and "ser \<noteq> s \<and> n' = n
         \<or> ser = s \<and> n' = Some ((case n of None \<Rightarrow> 0 | Some k \<Rightarrow> k) + 1)
             \<and> (case n of None \<Rightarrow> 0 | Some k \<Rightarrow> k) + 1 \<le> M"
    and "ob = None \<or> (case n' of None \<Rightarrow> 0 | Some k \<Rightarrow> k) \<le> M"
  shows "throttled (c\<lparr>lastLog := \<lparr>serialized = ser, object = ob, count = n, time = tm, timeout = to\<rparr>\<rparr>) lo now
           = Inr (c\<lparr>lastLog := \<lparr>serialized = s, object = Some lo, count = n', time = JDate t, timeout = None\<rparr>\<rparr>,
                  log_to_reporters c lo)"
  using assms
  by (auto simp add: throttled_def diffTime_def resolveLog_def flushPending_def count_or_0_def
        log_to_reporters_def Let_def split: option.splits)

lemma throttled_absorbs:
  assumes "throttle (options c) = W" and "throttleMin (options c) = M"
    and "getp lo ''date'' = JDate t" and "fingerprint lo = Inr s"
    and "tm = JUndefined \<and> 0 < W \<or> (\<exists>t0. tm = JDate t0 \<and> t - t0 < W)"
    and "M < (case n of None \<Rightarrow> 0 | Some k \<Rightarrow> k) + 1"
  shows "throttled (c\<lparr>lastLog := \<lparr>serialized = s, object = ob, count = n, time = tm, timeout = to\<rparr>\<rparr>) lo now
           = Inr (c\<lparr>lastLog := \<lparr>serialized = s, object = ob,
                                  count = Some ((case n of None \<Rightarrow> 0 | Some k \<Rightarrow> k) + 1),
                                  time = JDate t, timeout = Some (now + W)\<rparr>\<rparr>, [])"
  using assms
  by (auto simp add: throttled_def diffTime_def count_or_0_def Let_def split: option.splits)

lemma throttled_flushes_one:
  assumes "throttle (options c) = W" and "throttleMin (options c) = M"
    and "getp lo ''date'' = JDate t" and "fingerprint lo = Inr s"
    and "tm = JUndefined \<and> 0 < W \<or> (\<exists>t0. tm = JDate t0 \<and> t - t0 < W)"
    and "ser \<noteq> s" and "getp ob ''args'' = JArr xs" and "n = M + 1"
  shows "throttled (c\<lparr>lastLog := \<lparr>serialized = ser, object = Some ob, count = Some n, time = tm, timeout = to\<rparr>\<rparr>) lo now
           = Inr (c\<lparr>lastLog := \<lparr>serialized = s, object = Some lo, count = Some 1, time = JDate t, timeout = None\<rparr>\<rparr>,
                  log_to_reporters c ob @ log_to_reporters c lo)"
  using assms put_same [of ob "''args''" "JArr xs"]
  by (auto simp add: throttled_def diffTime_def resolveLog_def flushPending_def count_or_0_def
        log_to_reporters_def Let_def split: option.splits)

lemma fingerprint_not_undefined: "fingerprint lo = Inr s \<Longrightarrow> s \<noteq> None"
  by (auto simp add: fingerprint_def bind_Inr_iff)

lemma lastLog_update_same: "lastLog c = l \<Longrightarrow> c\<lparr>lastLog := l\<rparr> = c"
  by (cases c) simp

text \<open>
  C1, as stated, fails in its second part: with \<open>throttleMin = 5\<close> and a window of
  1000 ms, the 6th identical dispatch inside the window is rendered at once: after six
  identical dispatches at the same instant the reporter has been handed the record six
  times, not five.
\<close>

theorem sixth_identical_dispatch_is_rendered_counterexample:
  "bind (dispatch_all (replicate 6 ((0, [(''type'', JStr ''info''), (''level'', JNum (Fin 3))], [JStr ''x''], False), 0))
           (start_world (plain_instance [0])))
     (\<lambda>w. Inr (shown_args w))
   = Inr [(0, JArr [JStr ''x'']), (0, JArr [JStr ''x'']), (0, JArr [JStr ''x'']),
          (0, JArr [JStr ''x'']), (0, JArr [JStr ''x'']), (0, JArr [JStr ''x''])]"
  by (simp add: engine_defs eval_nat_numeral)

text \<open>
  C1, amended. With \<open>throttleMin = 5\<close> and a window of 1000 ms, on an instance that has
  logged nothing yet: a record dispatched 7 times, each time less than 1000 ms after
  the one before, is rendered by the first 6 dispatches, one by one; the 7th dispatch
  renders nothing; and when an 8th dispatch of a record with another fingerprint
  follows inside the window, it first renders the record of the 6th dispatch again,
  with its arguments unchanged (the pending count is 1, so no "(repeated N times)" is
  added), and then the new record.
\<close>

theorem seventh_identical_dispatch_is_absorbed:
  assumes W: "throttle (options c) = 1000" and M: "throttleMin (options c) = 5"
    and fresh: "lastLog c = emptyLog"
    and fp: "fingerprint lo = Inr s" and fp': "fingerprint lo' = Inr s'" and diff: "s' \<noteq> s"
    and args: "getp lo ''args'' = JArr xs"
    and win: "t2 - t1 < 1000" "t3 - t2 < 1000" "t4 - t3 < 1000" "t5 - t4 < 1000"
             "t6 - t5 < 1000" "t7 - t6 < 1000" "t8 - t7 < 1000"
  shows "\<exists>c'. throttled_all c
                 [(dated lo t1, n1), (dated lo t2, n2), (dated lo t3, n3), (dated lo t4, n4),
                  (dated lo t5, n5), (dated lo t6, n6), (dated lo t7, n7), (dated lo' t8, n8)]
               = Inr (c', [log_to_reporters c (dated lo t1), log_to_reporters c (dated lo t2),
                           log_to_reporters c (dated lo t3), log_to_reporters c (dated lo t4),
                           log_to_reporters c (dated lo t5), log_to_reporters c (dated lo t6),
                           [],
                           log_to_reporters c (dated lo t6) @ log_to_reporters c (dated lo' t8)])"
proof -
  define S where "S ser ob n tm to =
    c\<lparr>lastLog := \<lparr>serialized = ser, object = ob, count = n, time = tm, timeout = to\<rparr>\<rparr>"
    for ser ob n tm to
  note sn = fingerprint_not_undefined [OF fp]
  have c0: "c = S None None None JUndefined None"
    using fresh by (simp add: S_def emptyLog_def lastLog_update_same)
  have s1: "throttled (S None None None JUndefined None) (dated lo t1) n1
              = Inr (S s (Some (dated lo t1)) None (JDate t1) None, log_to_reporters c (dated lo t1))"
    unfolding S_def using sn by (intro throttled_renders [OF W M]) (auto simp add: fp)
  have s2: "throttled (S s (Some (dated lo t1)) None (JDate t1) None) (dated lo t2) n2
              = Inr (S s (Some (dated lo t2)) (Some 1) (JDate t2) None, log_to_reporters c (dated lo t2))"
    unfolding S_def using win by (intro throttled_renders [OF W M]) (simp_all add: fp)
  have s3: "throttled (S s (Some (dated lo t2)) (Some 1) (JDate t2) None) (dated lo t3) n3
              = Inr (S s (Some (dated lo t3)) (Some 2) (JDate t3) None, log_to_reporters c (dated lo t3))"
    unfolding S_def using win by (intro throttled_renders [OF W M]) (simp_all add: fp)
  have s4: "throttled (S s (Some (dated lo t3)) (Some 2) (JDate t3) None) (dated lo t4) n4
              = Inr (S s (Some (dated lo t4)) (Some 3) (JDate t4) None, log_to_reporters c (dated lo t4))"
    unfolding S_def using win by (intro throttled_renders [OF W M]) (simp_all add: fp)
  have s5: "throttled (S s (Some (dated lo t4)) (Some 3) (JDate t4) None) (dated lo t5) n5
              = Inr (S s (Some (dated lo t5)) (Some 4) (JDate t5) None, log_to_reporters c (dated lo t5))"
    unfolding S_def using win by (intro throttled_renders [OF W M]) (simp_all add: fp)
  have s6: "throttled (S s (Some (dated lo t5)) (Some 4) (JDate t5) None) (dated lo t6) n6
              = Inr (S s (Some (dated lo t6)) (Some 5) (JDate t6) None, log_to_reporters c (dated lo t6))"
    unfolding S_def using win by (intro throttled_renders [OF W M]) (simp_all add: fp)
  have s7: "throttled (S s (Some (dated lo t6)) (Some 5) (JDate t6) None) (dated lo t7) n7
              = Inr (S s (Some (dated lo t6)) (Some 6) (JDate t7) (Some (n7 + 1000)), [])"
    unfolding S_def using win throttled_absorbs [OF W M, of "dated lo t7" t7 s "JDate t6" "Some 5"]
    by (simp add: fp)
  have s8: "throttled (S s (Some (dated lo t6)) (Some 6) (JDate t7) (Some (n7 + 1000))) (dated lo' t8) n8
              = Inr (S s' (Some (dated lo' t8)) (Some 1) (JDate t8) None,
                     log_to_reporters c (dated lo t6) @ log_to_reporters c (dated lo' t8))"
    unfolding S_def using win diff
    by (intro throttled_flushes_one [OF W M, where xs = xs]) (simp_all add: fp' args)
  have "throttled_all (S None None None JUndefined None)
                 [(dated lo t1, n1), (dated lo t2, n2), (dated lo t3, n3), (dated lo t4, n4),
                  (dated lo t5, n5), (dated lo t6, n6), (dated lo t7, n7), (dated lo' t8, n8)]
               = Inr (S s' (Some (dated lo' t8)) (Some 1) (JDate t8) None,
                      [log_to_reporters c (dated lo t1), log_to_reporters c (dated lo t2),
                           log_to_reporters c (dated lo t3), log_to_reporters c (dated lo t4),
                           log_to_reporters c (dated lo t5), log_to_reporters c (dated lo t6),
                           [],
                           log_to_reporters c (dated lo t6) @ log_to_reporters c (dated lo' t8)])"
    by (simp add: s1 s2 s3 s4 s5 s6 s7 s8)
  then show ?thesis
    unfolding c0 [symmetric] by blast
qed

theorem seventh_identical_dispatch_is_absorbed_witness:
  "\<exists>c'. throttled_all (plain_instance [0])
          [(dated [(''type'', JStr ''info''), (''tag'', JStr []), (''args'', JArr [JStr ''x''])] 10, 10),
           (dated [(''type'', JStr ''info''), (''tag'', JStr []), (''args'', JArr [JStr ''x''])] 20, 20),
           (dated [(''type'', JStr ''info''), (''tag'', JStr []), (''args'', JArr [JStr ''x''])] 30, 30),
           (dated [(''type'', JStr ''info''), (''tag'', JStr []), (''args'', JArr [JStr ''x''])] 40, 40),
           (dated [(''type'', JStr ''info''), (''tag'', JStr []), (''args'', JArr [JStr ''x''])] 50, 50),
           (dated [(''type'', JStr ''info''), (''tag'', JStr []), (''args'', JArr [JStr ''x''])] 60, 60),
           (dated [(''type'', JStr ''info''), (''tag'', JStr []), (''args'', JArr [JStr ''x''])] 70, 70),
           (dated [(''type'', JStr ''info''), (''tag'', JStr []), (''args'', JArr [JStr ''y''])] 80, 80)]
        = Inr (c',
           [[(0, dated [(''type'', JStr ''info''), (''tag'', JStr []), (''args'', JArr [JStr ''x''])] 10)],
            [(0, dated [(''type'', JStr ''info''), (''tag'', JStr []), (''args'', JArr [JStr ''x''])] 20)],
            [(0, dated [(''type'', JStr ''info''), (''tag'', JStr []), (''args'', JArr [JStr ''x''])] 30)],
            [(0, dated [(''type'', JStr ''info''), (''tag'', JStr []), (''args'', JArr [JStr ''x''])] 40)],
            [(0, dated [(''type'', JStr ''info''), (''tag'', JStr []), (''args'', JArr [JStr ''x''])] 50)],
            [(0, dated [(''type'', JStr ''info''), (''tag'', JStr []), (''args'', JArr [JStr ''x''])] 60)],
            [],
            [(0, dated [(''type'', JStr ''info''), (''tag'', JStr []), (''args'', JArr [JStr ''x''])] 60),
             (0, dated [(''type'', JStr ''info''), (''tag'', JStr []), (''args'', JArr [JStr ''y''])] 80)]])"
proof -
  let ?x = "[(''type'', JStr ''info''), (''tag'', JStr []), (''args'', JArr [JStr ''x''])]"
  let ?y = "[(''type'', JStr ''info''), (''tag'', JStr []), (''args'', JArr [JStr ''y''])]"
  have W: "throttle (options (plain_instance [0])) = 1000"
    and M: "throttleMin (options (plain_instance [0])) = 5"
    and fresh: "lastLog (plain_instance [0]) = emptyLog"
    by (simp_all add: plain_instance_def)
  have fx: "fingerprint ?x = Inr (Some (JsArr [JsStr ''info'', JsStr [], JsArr [JsStr ''x'']]))"
    and fy: "fingerprint ?y = Inr (Some (JsArr [JsStr ''info'', JsStr [], JsArr [JsStr ''y'']]))"
    and ax: "getp ?x ''args'' = JArr [JStr ''x'']"
    by (simp_all add: fingerprint_def getp_def)
  have r: "log_to_reporters (plain_instance [0]) lo = [(0, lo)]" for lo
    by (simp add: log_to_reporters_def plain_instance_def)
  from seventh_identical_dispatch_is_absorbed
         [OF W M fresh fx fy _ ax, of 20 10 30 40 50 60 70 80 10 20 30 40 50 60 70 80]
  show ?thesis
    by (simp add: r)
qed

section \<open>Results on records that cannot be serialized\<close>

lemma is_date_cases: "is_date v \<Longrightarrow> \<exists>t. v = JDate t"
  by (cases v) simp_all

lemma is_array_cases: "is_array v \<Longrightarrow> \<exists>xs. v = JArr xs"
  by (cases v) simp_all

lemma diffTime_typed:
  assumes "is_date (getp lo ''date'')" and "time (lastLog c) = JUndefined \<or> is_date (time (lastLog c))"
  shows "\<exists>dt. diffTime c lo = Inr dt"
  using assms by (auto simp add: diffTime_def dest!: is_date_cases)

lemma flushPending_typed:
  assumes "case object (lastLog c) of None \<Rightarrow> True | Some ob \<Rightarrow> is_array (getp ob ''args'')"
  shows "\<exists>c1 out. flushPending c = Inr (c1, out)
           \<and> options c1 = options c
           \<and> serialized (lastLog c1) = serialized (lastLog c)
           \<and> time (lastLog c1) = time (lastLog c)
           \<and> object (lastLog c1) = object (lastLog c)"
  using assms
  by (auto simp add: flushPending_def Let_def split: option.splits dest!: is_array_cases)

lemma resolveLog_typed:
  assumes "case object (lastLog c) of None \<Rightarrow> True | Some ob \<Rightarrow> is_array (getp ob ''args'')"
  shows "\<exists>c' flushed. resolveLog c lo True = Inr (c', flushed @ log_to_reporters c lo)
           \<and> options c' = options c
           \<and> serialized (lastLog c') = serialized (lastLog c)
           \<and> time (lastLog c') = time (lastLog c)
           \<and> object (lastLog c') = Some lo"
proof -
  from flushPending_typed [OF assms] obtain c1 out where
    f: "flushPending c = Inr (c1, out)" and o: "options c1 = options c"
    and s: "serialized (lastLog c1) = serialized (lastLog c)"
    and t: "time (lastLog c1) = time (lastLog c)"
    by blast
  have "resolveLog c lo True
          = Inr (c1\<lparr>lastLog := (lastLog c1)\<lparr>object := Some lo\<rparr>\<rparr>, out @ log_to_reporters c lo)"
    using f o by (simp add: resolveLog_def log_to_reporters_def)
  with o s t show ?thesis by simp
qed

text \<open>
  C5. Let the record have a \<open>Date\<close> as its \<open>date\<close> and let the suppression state of the
  instance be of its declared type. If the fingerprint of the record cannot be computed
  (\<open>JSON.stringify\<close> raises a TypeError, as for a cyclic object or a BigInt among the
  arguments), the dispatch raises nothing: after the flush of a pending repeat, if
  there is one, the record is handed to every reporter of the instance; the stored
  fingerprint stays as it was, so the comparison is skipped for this record only.
\<close>

theorem unserializable_record_is_rendered:
  assumes "fingerprint lo = Inl TypeError" and "is_date (getp lo ''date'')" and "typed_state c"
  shows "\<exists>c' flushed. throttled c lo now = Inr (c', flushed @ log_to_reporters c lo)
           \<and> serialized (lastLog c') = serialized (lastLog c)
           \<and> object (lastLog c') = Some lo
           \<and> (\<forall>r \<in> set (reporters (options c)). (r, lo) \<in> set (flushed @ log_to_reporters c lo))"
proof -
  let ?c1 = "c\<lparr>lastLog := (lastLog c)\<lparr>timeout := None\<rparr>\<rparr>"
  let ?c2 = "?c1\<lparr>lastLog := (lastLog ?c1)\<lparr>time := getp lo ''date''\<rparr>\<rparr>"
  from assms(2,3) obtain dt where dt: "diffTime ?c1 lo = Inr dt"
    using diffTime_typed [of lo ?c1] by (auto simp add: typed_state_def)
  have t: "throttled c lo now = resolveLog ?c2 lo True"
    using dt assms(1) by (simp add: throttled_def Let_def)
  have "case object (lastLog ?c2) of None \<Rightarrow> True | Some ob \<Rightarrow> is_array (getp ob ''args'')"
    using assms(3) by (simp add: typed_state_def)
  from resolveLog_typed [OF this, of lo] obtain c' flushed where
    r: "resolveLog ?c2 lo True = Inr (c', flushed @ log_to_reporters ?c2 lo)"
    and s: "serialized (lastLog c') = serialized (lastLog ?c2)"
    and ob: "object (lastLog c') = Some lo"
    by blast
  have l: "log_to_reporters ?c2 lo = log_to_reporters c lo"
    by (simp add: log_to_reporters_def)
  have "\<forall>r \<in> set (reporters (options c)). (r, lo) \<in> set (flushed @ log_to_reporters c lo)"
    by (auto simp add: log_to_reporters_def)
  with t r s ob l show ?thesis by auto
qed

theorem unserializable_record_is_rendered_witness:
  "\<exists>c'. throttled (plain_instance [3, 4])
            [(''date'', JDate 5), (''args'', JArr [JCyclic]), (''type'', JStr ''info''), (''tag'', JStr [])] 5
         = Inr (c', [(3, [(''date'', JDate 5), (''args'', JArr [JCyclic]), (''type'', JStr ''info''), (''tag'', JStr [])]),
                     (4, [(''date'', JDate 5), (''args'', JArr [JCyclic]), (''type'', JStr ''info''), (''tag'', JStr [])])])
         \<and> serialized (lastLog c') = None"
proof -
  let ?lo = "[(''date'', JDate 5), (''args'', JArr [JCyclic]), (''type'', JStr ''info''), (''tag'', JStr [])]"
  have f: "fingerprint ?lo = Inl TypeError"
    by (simp add: fingerprint_def getp_def)
  have d: "is_date (getp ?lo ''date'')"
    by (simp add: getp_def)
  have ts: "typed_state (plain_instance [3, 4])"
    by (simp add: typed_state_def plain_instance_def emptyLog_def)
  from unserializable_record_is_rendered [OF f d ts, of 5] obtain c' flushed where
    r: "throttled (plain_instance [3, 4]) ?lo 5 = Inr (c', flushed @ log_to_reporters (plain_instance [3, 4]) ?lo)"
    and s: "serialized (lastLog c') = serialized (lastLog (plain_instance [3, 4]))"
    by blast
  have "throttled (plain_instance [3, 4]) ?lo 5 = Inr (c', [(3, ?lo), (4, ?lo)])"
  proof -
    have "bind (throttled (plain_instance [3, 4]) ?lo 5) (\<lambda>(c', out). Inr out) = Inr [(3, ?lo), (4, ?lo)]"
      by (simp add: engine_defs)
    with r show ?thesis by simp
  qed
  with s show ?thesis
    by (auto simp add: plain_instance_def emptyLog_def)
qed

text \<open>
  The typed states are closed under the duplicate suppression of typed records, and on
  them the suppression raises nothing, whatever the fingerprint (the one case that the
  model does not follow, a date among the arguments, apart).
\<close>

lemma throttled_cases:
  assumes "throttled c lo now = Inr (c', out)"
  shows "(\<exists>cX. resolveLog cX lo True = Inr (c', out) \<and> time (lastLog cX) = getp lo ''date''
               \<and> object (lastLog cX) = object (lastLog c))
         \<or> (time (lastLog c') = getp lo ''date'' \<and> object (lastLog c') = object (lastLog c))"
proof -
  let ?c1 = "c\<lparr>lastLog := (lastLog c)\<lparr>timeout := None\<rparr>\<rparr>"
  let ?c2 = "?c1\<lparr>lastLog := (lastLog ?c1)\<lparr>time := getp lo ''date''\<rparr>\<rparr>"
  from assms obtain dt where dt: "diffTime ?c1 lo = Inr dt"
    by (auto simp add: throttled_def Let_def bind_Inr_iff)
  show ?thesis
  proof (cases "dt < throttle (options c)")
    case False
    with assms dt have "resolveLog ?c2 lo True = Inr (c', out)"
      by (simp add: throttled_def Let_def)
    then show ?thesis by (intro disjI1 exI [of _ ?c2]) simp
  next
    case True
    show ?thesis
    proof (cases "fingerprint lo")
      case (Inl e)
      with assms dt True have "resolveLog ?c2 lo True = Inr (c', out)"
        by (cases e) (simp_all add: throttled_def Let_def)
      then show ?thesis by (intro disjI1 exI [of _ ?c2]) simp
    next
      case (Inr s)
      let ?c3 = "?c2\<lparr>lastLog := (lastLog ?c2)\<lparr>serialized := s\<rparr>\<rparr>"
      let ?c4 = "?c3\<lparr>lastLog := (lastLog ?c3)\<lparr>count := Some (count_or_0 ?c3 + 1)\<rparr>\<rparr>"
      consider (other) "serialized (lastLog c) \<noteq> s"
        | (below) "serialized (lastLog c) = s" "\<not> count_or_0 ?c4 > throttleMin (options c)"
        | (above) "serialized (lastLog c) = s" "count_or_0 ?c4 > throttleMin (options c)"
        by blast
      then show ?thesis
      proof cases
        case other
        with assms dt True Inr have "resolveLog ?c3 lo True = Inr (c', out)"
          by (simp add: throttled_def Let_def)
        then show ?thesis by (intro disjI1 exI [of _ ?c3]) simp
      next
        case below
        with assms dt True Inr have "resolveLog ?c4 lo True = Inr (c', out)"
          by (simp add: throttled_def Let_def)
        then show ?thesis by (intro disjI1 exI [of _ ?c4]) simp
      next
        case above
        with assms dt True Inr
        have "c' = ?c4\<lparr>lastLog := (lastLog ?c4)\<lparr>timeout := Some (now + throttle (options c))\<rparr>\<rparr>"
          by (simp add: throttled_def Let_def)
        then show ?thesis by simp
      qed
    qed
  qed
qed

lemma throttled_keeps_typed_state:
  assumes "typed_state c" and "typed_record lo" and "throttled c lo now = Inr (c', out)"
  shows "typed_state c'"
proof -
  from throttled_cases [OF assms(3)] show ?thesis
  proof
    assume "\<exists>cX. resolveLog cX lo True = Inr (c', out) \<and> time (lastLog cX) = getp lo ''date''
               \<and> object (lastLog cX) = object (lastLog c)"
    then obtain cX where r: "resolveLog cX lo True = Inr (c', out)"
      and t: "time (lastLog cX) = getp lo ''date''" and ob: "object (lastLog cX) = object (lastLog c)"
      by blast
    have "case object (lastLog cX) of None \<Rightarrow> True | Some ob \<Rightarrow> is_array (getp ob ''args'')"
      using assms(1) ob by (simp add: typed_state_def)
    from resolveLog_typed [OF this, of lo] r t assms(2) show ?thesis
      by (auto simp add: typed_state_def typed_record_def)
  next
    assume "time (lastLog c') = getp lo ''date'' \<and> object (lastLog c') = object (lastLog c)"
    with assms(1,2) show ?thesis
      by (simp add: typed_state_def typed_record_def)
  qed
qed

text \<open>No exception: a typed record on a typed state always gets through the suppression.\<close>

lemma throttled_raises_nothing:
  assumes "typed_state c" and "typed_record lo" and "fingerprint lo \<noteq> Inl Unmodelled"
  shows "\<exists>c' out. throttled c lo now = Inr (c', out)"
proof -
  let ?c1 = "c\<lparr>lastLog := (lastLog c)\<lparr>timeout := None\<rparr>\<rparr>"
  from assms(1,2) obtain dt where dt: "diffTime ?c1 lo = Inr dt"
    using diffTime_typed [of lo ?c1] by (auto simp add: typed_state_def typed_record_def)
  have res: "\<exists>c' out. resolveLog cX lo True = Inr (c', out)"
    if "object (lastLog cX) = object (lastLog c)" for cX
  proof -
    have "case object (lastLog cX) of None \<Rightarrow> True | Some ob \<Rightarrow> is_array (getp ob ''args'')"
      using assms(1) that by (simp add: typed_state_def)
    from resolveLog_typed [OF this, of lo] show ?thesis by blast
  qed
  show ?thesis
  proof (cases "fingerprint lo")
    case (Inl e)
    with assms(3) have "e = TypeError \<or> e = RangeError" by (cases e) simp_all
    with Inl dt show ?thesis
      using res [of "?c1\<lparr>lastLog := (lastLog ?c1)\<lparr>time := getp lo ''date''\<rparr>\<rparr>"]
      by (auto simp add: throttled_def Let_def)
  next
    case (Inr s)
    with dt show ?thesis
      using res [of "?c1\<lparr>lastLog := (lastLog ?c1)\<lparr>time := getp lo ''date''\<rparr>\<rparr>"]
        res [of "?c1\<lparr>lastLog := (lastLog ?c1)\<lparr>time := getp lo ''date'', serialized := s\<rparr>\<rparr>"]
        res [of "?c1\<lparr>lastLog := (lastLog ?c1)\<lparr>time := getp lo ''date'', serialized := s,
                   count := Some (count_or_0 c + 1)\<rparr>\<rparr>"]
      by (simp add: throttled_def Let_def count_or_0_def)
  qed
qed

text \<open>
  At the call-site: with \<open>throttleMin = 0\<close>, three dispatches of the same text at one
  instant render once, three dispatches of a cyclic object render three times.
\<close>

lemma cyclic_argument_is_never_absorbed:
  "bind (dispatch_all (replicate 3 ((0, [(''type'', JStr ''info''), (''level'', JNum (Fin 3))], [JStr ''x''], False), 0))
           (start_world ((plain_instance [0])\<lparr>options := (options (plain_instance [0]))\<lparr>throttleMin := 0\<rparr>\<rparr>)))
     (\<lambda>w. Inr (shown_args w))
   = Inr [(0, JArr [JStr ''x''])]
   \<and> bind (dispatch_all (replicate 3 ((0, [(''type'', JStr ''info''), (''level'', JNum (Fin 3))], [JCyclic], False), 0))
           (start_world ((plain_instance [0])\<lparr>options := (options (plain_instance [0]))\<lparr>throttleMin := 0\<rparr>\<rparr>)))
     (\<lambda>w. Inr (shown_args w))
   = Inr [(0, JArr [JCyclic]), (0, JArr [JCyclic]), (0, JArr [JCyclic])]"
  by (simp add: engine_defs eval_nat_numeral)

section \<open>Plain dispatches raise nothing\<close>

lemma is_number_cases: "is_number v \<Longrightarrow> \<exists>n. v = JNum n"
  by (cases v) simp_all

lemma buildLogObj_plain:
  assumes "plain_site d" and "\<not> treatedAsRecord isRaw args"
  shows "\<exists>lo. buildLogObj c d args isRaw now = Inr lo
           \<and> getp lo ''date'' = JDate now \<and> getp lo ''args'' = JArr args
           \<and> (\<exists>ty tg. getp lo ''type'' = JStr ty \<and> getp lo ''tag'' = JStr tg)"
proof -
  obtain l where l: "normalizeLogLevel (getp d ''level'') (types (options c)) (JNum (Fin 3)) = Inr l"
    using assms(1) by (cases "getp d ''level''") (simp_all add: plain_site_def)
  let ?lo0 = "put (assign [(''date'', JDate now), (''args'', JArr [])] d) ''level'' l"
  let ?lo1 = "put ?lo0 ''args'' (JArr args)"
  have b: "baseLogObj c d now = Inr ?lo0"
    using l by (simp add: baseLogObj_def)
  have p: "placeArgs isRaw args ?lo0 = ?lo1"
    using assms(2) by (simp add: placeArgs_def)
  have ns: "\<not> sharesDefaultArgs isRaw args d"
    using assms(2) by (simp add: sharesDefaultArgs_def)
  have msg: "getp ?lo1 ''message'' = getp d ''message''"
    and add: "getp ?lo1 ''additional'' = getp d ''additional''"
    by (simp_all add: getp_put getp_assign, simp_all add: getp_def split: option.splits)
  have m: "applyMessage False ?lo1 = Inr ?lo1"
    using assms(1) msg by (simp add: applyMessage_def plain_site_def)
  have a: "applyAdditional False ?lo1 = Inr ?lo1"
    using assms(1) add by (simp add: applyAdditional_def plain_site_def)
  have built: "buildLogObj c d args isRaw now = Inr (normalizeTypeTag ?lo1)"
    using b p ns m a by (simp add: buildLogObj_def)
  have date: "getp (normalizeTypeTag ?lo1) ''date'' = JDate now"
    using assms(1)
    by (simp add: normalizeTypeTag_def getp_put getp_assign plain_site_def, simp add: getp_def)
  have args: "getp (normalizeTypeTag ?lo1) ''args'' = JArr args"
    by (simp add: normalizeTypeTag_def getp_put)
  have tt: "\<exists>ty tg. getp (normalizeTypeTag ?lo1) ''type'' = JStr ty
              \<and> getp (normalizeTypeTag ?lo1) ''tag'' = JStr tg"
    by (auto simp add: normalizeTypeTag_def getp_put split: jsval.splits)
  from built date args tt show ?thesis by blast
qed

lemma fingerprint_of_positional:
  assumes "getp lo ''type'' = JStr ty" and "getp lo ''tag'' = JStr tg" and "getp lo ''args'' = JArr args"
    and "stringify_elems args \<noteq> Inl Unmodelled"
  shows "fingerprint lo \<noteq> Inl Unmodelled"
  using assms
  by (cases "stringify_elems args") (simp_all add: fingerprint_def)

lemma resolveLog_keeps_options:
  "resolveLog c lo b = Inr (c', out) \<Longrightarrow> options c' = options c"
  by (auto simp add: resolveLog_def flushPending_def Let_def bind_Inr_iff split: option.splits if_splits)

lemma throttled_keeps_options:
  assumes "throttled c lo now = Inr (c', out)"
  shows "options c' = options c"
  using assms
  by (auto simp add: throttled_def Let_def bind_Inr_iff
        split: if_splits sum.splits failure.splits dest!: resolveLog_keeps_options)

text \<open>
  A plain call on an instance with a numeric threshold and a typed suppression state
  returns, and leaves such an instance.
\<close>

lemma logFn_plain_returns:
  assumes "plain_site d" and "\<not> treatedAsRecord isRaw args"
    and "stringify_elems args \<noteq> Inl Unmodelled"
    and "is_number (level (options c))" and "typed_state c"
  shows "\<exists>c' out r. logFn c d args isRaw now = Inr (c', out, r)
           \<and> is_number (level (options c')) \<and> typed_state c'"
proof -
  from assms(4) obtain t where t: "level (options c) = JNum t"
    by (auto dest: is_number_cases)
  have sl: "\<exists>s. site_level d = JNum s"
    using assms(1) by (cases "getp d ''level''") (auto simp add: site_level_def plain_site_def)
  then obtain s where s: "site_level d = JNum s" by blast
  show ?thesis
  proof (cases "num_less t s")
    case True
    with s t assms(4,5) show ?thesis by (simp add: logFn_filter)
  next
    case False
    from buildLogObj_plain [OF assms(1,2), of c now] obtain lo ty tg where
      b: "buildLogObj c d args isRaw now = Inr lo" and
      d: "getp lo ''date'' = JDate now" and a: "getp lo ''args'' = JArr args" and
      tt: "getp lo ''type'' = JStr ty" "getp lo ''tag'' = JStr tg"
      by blast
    have tr: "typed_record lo"
      using d a by (simp add: typed_record_def)
    from throttled_raises_nothing [OF assms(5) tr fingerprint_of_positional [OF tt a assms(3)], of now]
    obtain c' out where th: "throttled c lo now = Inr (c', out)"
      by blast
    have "logFn c d args isRaw now = Inr (c', out, JUndefined)"
      using False s t b th by (simp add: logFn_filter)
    moreover have "typed_state c'"
      using throttled_keeps_typed_state [OF assms(5) tr th] .
    moreover have "is_number (level (options c'))"
      using throttled_keeps_options [OF th] assms(4) by simp
    ultimately show ?thesis by blast
  qed
qed

text \<open>
  So a drain of plain calls returns: if every instance has a numeric threshold and a
  typed suppression state, \<open>resumeLogs\<close> on a queue of plain calls raises nothing.
\<close>

lemma resume_loop_plain_returns:
  assumes "\<forall>item \<in> set items. case item of (i, d, args, isRaw) \<Rightarrow>
             plain_site d \<and> \<not> treatedAsRecord False args \<and> stringify_elems args \<noteq> Inl Unmodelled"
    and "\<forall>i. is_number (level (options (insts w i))) \<and> typed_state (insts w i)"
  shows "\<exists>w'. resume_loop clock k items w = Inr w'"
  using assms
proof (induction items arbitrary: k w)
  case Nil
  then show ?case by simp
next
  case (Cons item items)
  obtain i d args isRaw where item: "item = (i, d, args, isRaw)"
    by (cases item) auto
  from Cons.prems(1) item have pl: "plain_site d" "\<not> treatedAsRecord False args"
    "stringify_elems args \<noteq> Inl Unmodelled"
    by auto
  from Cons.prems(2) have ti: "is_number (level (options (insts w i)))" "typed_state (insts w i)"
    by auto
  from logFn_plain_returns [OF pl ti, of "clock k"] obtain c' out r where
    l: "logFn (insts w i) d args False (clock k) = Inr (c', out, r)"
    and n: "is_number (level (options c'))" and ts: "typed_state c'"
    by blast
  let ?w1 = "w\<lparr>insts := (insts w)(i := c'), rendered := rendered w @ out\<rparr>"
  have s1: "logFn_at i d args False (clock k) w = Inr ?w1"
    using l by (simp add: logFn_at_def)
  have inv: "\<forall>j. is_number (level (options (insts ?w1 j))) \<and> typed_state (insts ?w1 j)"
    using Cons.prems(2) n ts by simp
  from Cons.IH [OF _ inv, of "Suc k"] Cons.prems(1) obtain w' where
    "resume_loop clock (Suc k) items ?w1 = Inr w'"
    by auto
  with s1 item show ?case by simp
qed

lemma resumeLogs_plain_returns:
  assumes "\<forall>item \<in> set (queue w). case item of (i, d, args, isRaw) \<Rightarrow>
             plain_site d \<and> \<not> treatedAsRecord False args \<and> stringify_elems args \<noteq> Inl Unmodelled"
    and "\<forall>i. is_number (level (options (insts w i))) \<and> typed_state (insts w i)"
  shows "\<exists>w'. resumeLogs clock w = Inr w' \<and> queue w' = [] \<and> \<not> paused w'"
proof -
  from resume_loop_plain_returns [OF assms(1), of "w\<lparr>paused := False, queue := []\<rparr>" clock 0] assms(2)
  obtain w' where r: "resume_loop clock 0 (queue w) (w\<lparr>paused := False, queue := []\<rparr>) = Inr w'"
    by auto
  from resume_loop_keeps_queue [OF r] r show ?thesis
    by (simp add: resumeLogs_def)
qed

end
